theory Spec2Isabelle
  imports Main
begin

section \<open>Data model (prisma/schema.prisma)\<close>

text \<open>
  Each table is the list of its rows, in the order the database returns them when no
  \<open>orderBy\<close> decides between two rows. Only the columns the booking route reads or
  writes are kept. Identifiers are strings, \<open>Int\<close> columns are integers (the 32-bit
  range of the column type is left out) and \<open>DateTime\<close> columns are instants on an
  integer time line.
\<close>

datatype EventStatus = DRAFT | PUBLISHED | EVENT_CANCELLED | EVENT_COMPLETED

datatype TransactionStatus = PENDING | COMPLETED | CANCELLED | REFUNDED

datatype TicketType = REGULAR | VIP | EARLY_BIRD

record Event =
  event_id :: string
  event_name :: string
  event_availableSeats :: int
  event_bookedSeats :: int
  event_status :: EventStatus

record Ticket =
  ticket_id :: string
  ticket_eventId :: string
  ticket_type :: TicketType
  ticket_price :: int
  ticket_quantity :: int
  ticket_sold :: int

record User =
  user_id :: string
  user_pointsBalance :: int

record Point =
  point_id :: string
  point_earnedById :: "string option"
  point_usedById :: "string option"
  point_amount :: int
  point_description :: string
  point_expiresAt :: int
  point_isUsed :: bool
  point_createdAt :: int

record DiscountCoupon =
  coupon_id :: string
  coupon_userId :: string
  coupon_code :: string
  coupon_discountPercent :: int
  coupon_isUsed :: bool
  coupon_expiresAt :: int
  coupon_createdAt :: int

record Transaction =
  tx_id :: string
  tx_userId :: string
  tx_eventId :: string
  tx_totalAmount :: int
  tx_discountAmount :: int
  tx_finalAmount :: int
  tx_pointsUsed :: int
  tx_status :: TransactionStatus

record TransactionItem =
  ti_transactionId :: string
  ti_ticketId :: string
  ti_quantity :: int
  ti_unitPrice :: int
  ti_totalPrice :: int

record TransactionCoupon =
  tc_transactionId :: string
  tc_discountCouponId :: string

record store =
  events :: "Event list"
  tickets :: "Ticket list"
  users :: "User list"
  points :: "Point list"
  discountCoupons :: "DiscountCoupon list"
  transactions :: "Transaction list"
  transactionItems :: "TransactionItem list"
  transactionCoupons :: "TransactionCoupon list"

section \<open>Requests, errors and the environment of one request\<close>

record LineItem =
  li_ticketId :: string
  li_quantity :: int

text \<open>
  The request body, and what \<open>transactionSchema.parse\<close> makes of it. Numbers are
  integers; the schema's check that identifiers have the form of a uuid is left out.
\<close>

record request =
  req_eventId :: string
  req_items :: "LineItem list"
  req_couponCode :: "string option"
  req_pointsToUse :: "int option"

record validatedData =
  v_eventId :: string
  v_items :: "LineItem list"
  v_couponCode :: "string option"
  v_pointsToUse :: int

text \<open>
  The route throws \<open>ZodError\<close> from the schema and \<open>Error\<close> with a message from the
  callback; \<open>TransactionAborted\<close> is what \<open>db.$transaction\<close> throws when it cannot commit.
\<close>

datatype error = ZodError | Error string | TransactionAborted

text \<open>
  What one request takes from outside the code: the clock (\<open>new Date()\<close>, read as one
  instant for the whole request), the result of \<open>d.setMonth(d.getMonth() + n)\<close> on an
  instant, the identifiers \<open>uuid()\<close> hands out, and whether the database commits a
  transaction that reaches its commit in time.
\<close>

record env =
  now :: int
  addMonths :: "int \<Rightarrow> int \<Rightarrow> int"
  uuid_transaction :: string
  uuid_point :: string
  commits :: bool

text \<open>
  A request runs on two handles: \<open>db\<close>, the database itself, and \<open>prisma\<close>, the client
  that \<open>db.$transaction\<close> passes to its callback. The callback's client sees the committed
  rows and its own writes; a write through \<open>db\<close> is committed at once.

  A user row the transaction has updated stays locked until the transaction ends
  (\<open>locked\<close>). A write through \<open>db\<close> to such a row waits for the lock, and the callback
  awaits that write: the transaction cannot end before its timeout, at which it is rolled
  back; the lock is released and the write goes through. The transaction has then timed
  out (\<open>timed_out\<close>) and will not commit. Of the rows written through \<open>db\<close> only user rows
  are updated in place, so only their locks are kept.
\<close>

record conn =
  prisma :: store
  db :: store
  locked :: "string list"
  timed_out :: bool

text \<open>
  The user rows a write updates: the rows of \<open>users\<close> that differ before and after it.
  (The route leaves the rows of \<open>users\<close> in place and updates a user by a non-zero amount
  only.)
\<close>

definition users_changed :: "store \<Rightarrow> store \<Rightarrow> string list" where
  "users_changed s s' =
     map (\<lambda>(u, u'). user_id u) (filter (\<lambda>(u, u'). u \<noteq> u') (zip (users s) (users s')))"

definition on_prisma :: "(store \<Rightarrow> store) \<Rightarrow> conn \<Rightarrow> conn" where
  "on_prisma f c =
     c\<lparr>prisma := f (prisma c),
       locked := locked c @ users_changed (prisma c) (f (prisma c))\<rparr>"

definition on_db :: "(store \<Rightarrow> store) \<Rightarrow> conn \<Rightarrow> conn" where
  "on_db f c =
     c\<lparr>db := f (db c), prisma := f (prisma c),
       timed_out := (timed_out c
                     \<or> list_ex (\<lambda>uid. uid \<in> set (locked c)) (users_changed (db c) (f (db c))))\<rparr>"

definition begin_transaction :: "store \<Rightarrow> conn" where
  "begin_transaction s = \<lparr>prisma = s, db = s, locked = [], timed_out = False\<rparr>"

section \<open>lib/validations: transactionSchema\<close>

definition transactionSchema_parse :: "request \<Rightarrow> error + validatedData" where
  "transactionSchema_parse req =
     (if list_all (\<lambda>i. 1 \<le> li_quantity i) (req_items req)
         \<and> (case req_pointsToUse req of None \<Rightarrow> True | Some p \<Rightarrow> 0 \<le> p)
      then Inr \<lparr>v_eventId = req_eventId req, v_items = req_items req,
                v_couponCode = req_couponCode req,
                v_pointsToUse = (case req_pointsToUse req of None \<Rightarrow> 0 | Some p \<Rightarrow> p)\<rparr>
      else Inl ZodError)"

section \<open>lib/utils: calculatePoints, addPointsToUser\<close>

definition calculatePoints :: "int \<Rightarrow> int" where
  "calculatePoints amount = amount div 1000"

definition point_create :: "Point \<Rightarrow> store \<Rightarrow> store" where
  "point_create p s = s\<lparr>points := points s @ [p]\<rparr>"

definition user_update_pointsBalance :: "string \<Rightarrow> int \<Rightarrow> store \<Rightarrow> store" where
  "user_update_pointsBalance uid n s =
     s\<lparr>users := map (\<lambda>u. if user_id u = uid
                           then u\<lparr>user_pointsBalance := user_pointsBalance u + n\<rparr> else u)
                    (users s)\<rparr>"

text \<open>\<open>addPointsToUser\<close> writes through \<open>db\<close>, not through the callback's client.\<close>

definition addPointsToUser :: "env \<Rightarrow> string \<Rightarrow> int \<Rightarrow> string \<Rightarrow> conn \<Rightarrow> conn" where
  "addPointsToUser env userId pts description c =
     (let expiresAt = addMonths env 3 (now env);
          c1 = on_db (point_create
                 \<lparr>point_id = uuid_point env, point_earnedById = Some userId,
                  point_usedById = None, point_amount = pts,
                  point_description = description, point_expiresAt = expiresAt,
                  point_isUsed = False, point_createdAt = now env\<rparr>) c
      in on_db (user_update_pointsBalance userId pts) c1)"

section \<open>routes/transactions: POST /\<close>

subsection \<open>Reading and pricing (the callback up to \<open>finalAmount\<close>)\<close>

record TicketUpdate =
  tu_id :: string
  tu_quantity :: int
  tu_price :: int

definition type_name :: "TicketType \<Rightarrow> string" where
  "type_name t = (case t of REGULAR \<Rightarrow> ''REGULAR'' | VIP \<Rightarrow> ''VIP''
                  | EARLY_BIRD \<Rightarrow> ''EARLY_BIRD'')"

text \<open>The loop over \<open>validatedData.items\<close>: \<open>tks\<close> is \<open>event.tickets\<close> as read once.\<close>

fun validate_items ::
  "Ticket list \<Rightarrow> LineItem list \<Rightarrow> int \<Rightarrow> TicketUpdate list
     \<Rightarrow> error + (int \<times> TicketUpdate list)" where
  "validate_items tks [] totalAmount ticketUpdates = Inr (totalAmount, ticketUpdates)"
| "validate_items tks (item # rest) totalAmount ticketUpdates =
     (case find (\<lambda>t. ticket_id t = li_ticketId item) tks of
        None \<Rightarrow> Inl (Error (''Ticket '' @ li_ticketId item @ '' not found''))
      | Some ticket \<Rightarrow>
          if ticket_sold ticket + li_quantity item > ticket_quantity ticket
          then Inl (Error (''Not enough tickets available for '' @ type_name (ticket_type ticket)))
          else validate_items tks rest
                 (totalAmount + ticket_price ticket * li_quantity item)
                 (ticketUpdates @ [\<lparr>tu_id = ticket_id ticket, tu_quantity = li_quantity item,
                                     tu_price = ticket_price ticket\<rparr>]))"

definition totalTickets_of :: "LineItem list \<Rightarrow> int" where
  "totalTickets_of its = foldl (\<lambda>sum item. sum + li_quantity item) 0 its"

text \<open>
  \<open>findFirst\<close> with \<open>orderBy: { discountPercent: "desc" }\<close>: the first row of the
  matching rows sorted by descending key; rows with equal keys stay in table order.
\<close>

definition findFirst_desc :: "('a \<Rightarrow> int) \<Rightarrow> ('a \<Rightarrow> bool) \<Rightarrow> 'a list \<Rightarrow> 'a option" where
  "findFirst_desc key P rows =
     (case sort_key (\<lambda>r. - key r) (filter P rows) of [] \<Rightarrow> None | r # _ \<Rightarrow> Some r)"

definition explicit_coupon :: "env \<Rightarrow> string \<Rightarrow> DiscountCoupon list \<Rightarrow> DiscountCoupon option" where
  "explicit_coupon env code cs =
     find (\<lambda>c. coupon_code c = code \<and> \<not> coupon_isUsed c \<and> now env \<le> coupon_expiresAt c) cs"

definition available_coupon :: "env \<Rightarrow> string \<Rightarrow> DiscountCoupon list \<Rightarrow> DiscountCoupon option" where
  "available_coupon env uid cs =
     findFirst_desc coupon_discountPercent
       (\<lambda>c. coupon_userId c = uid \<and> \<not> coupon_isUsed c \<and> now env \<le> coupon_expiresAt c) cs"

text \<open>
  The coupon branch yields \<open>(discountAmount, usedCoupons)\<close>. \<open>if (validatedData.couponCode)\<close>
  is false for a missing code and for the empty string.
\<close>

definition apply_coupon ::
  "env \<Rightarrow> string \<Rightarrow> string option \<Rightarrow> int \<Rightarrow> DiscountCoupon list \<Rightarrow> int \<times> string list" where
  "apply_coupon env uid couponCode totalAmount cs =
     (case (case couponCode of
              Some code \<Rightarrow> if code \<noteq> [] then explicit_coupon env code cs
                           else available_coupon env uid cs
            | None \<Rightarrow> available_coupon env uid cs) of
        None \<Rightarrow> (0, [])
      | Some coupon \<Rightarrow>
          ((totalAmount * coupon_discountPercent coupon) div 100, [coupon_id coupon]))"

definition event_findUnique :: "string \<Rightarrow> store \<Rightarrow> Event option" where
  "event_findUnique eid s = find (\<lambda>e. event_id e = eid) (events s)"

definition user_findUnique :: "string \<Rightarrow> store \<Rightarrow> User option" where
  "user_findUnique uid s = find (\<lambda>u. user_id u = uid) (users s)"

text \<open>The callback's local variables once \<open>finalAmount\<close> is computed.\<close>

record priced =
  pr_ticketUpdates :: "TicketUpdate list"
  pr_totalAmount :: int
  pr_totalTickets :: int
  pr_discountAmount :: int
  pr_usedCoupons :: "string list"
  pr_pointsToUse :: int
  pr_finalAmount :: int
  pr_eventName :: string

definition price :: "env \<Rightarrow> string \<Rightarrow> validatedData \<Rightarrow> store \<Rightarrow> error + priced" where
  "price env uid v s =
     (case event_findUnique (v_eventId v) s of
        None \<Rightarrow> Inl (Error ''Event not found'')
      | Some event \<Rightarrow>
          if event_status event \<noteq> PUBLISHED
          then Inl (Error ''Event is not available for booking'')
          else
            (case validate_items (filter (\<lambda>t. ticket_eventId t = event_id event) (tickets s))
                    (v_items v) 0 [] of
               Inl e \<Rightarrow> Inl e
             | Inr (totalAmount, ticketUpdates) \<Rightarrow>
                 if event_bookedSeats event + totalTickets_of (v_items v)
                      > event_availableSeats event
                 then Inl (Error ''Not enough seats available'')
                 else
                   (case apply_coupon env uid (v_couponCode v) totalAmount (discountCoupons s) of
                      (discountAmount, usedCoupons) \<Rightarrow>
                        (case user_findUnique uid s of
                           None \<Rightarrow> Inl (Error ''User not found'')
                         | Some user \<Rightarrow>
                             let pointsToUse =
                                   min (v_pointsToUse v)
                                     (min (user_pointsBalance user) (totalAmount - discountAmount))
                             in Inr \<lparr>pr_ticketUpdates = ticketUpdates,
                                     pr_totalAmount = totalAmount,
                                     pr_totalTickets = totalTickets_of (v_items v),
                                     pr_discountAmount = discountAmount,
                                     pr_usedCoupons = usedCoupons,
                                     pr_pointsToUse = pointsToUse,
                                     pr_finalAmount = totalAmount - discountAmount - pointsToUse,
                                     pr_eventName = event_name event\<rparr>))))"

subsection \<open>Writing (the callback from \<open>transaction.create\<close> on)\<close>

definition transaction_create :: "Transaction \<Rightarrow> store \<Rightarrow> store" where
  "transaction_create t s = s\<lparr>transactions := transactions s @ [t]\<rparr>"

definition transactionItem_create :: "TransactionItem \<Rightarrow> store \<Rightarrow> store" where
  "transactionItem_create i s = s\<lparr>transactionItems := transactionItems s @ [i]\<rparr>"

definition ticket_update_sold :: "string \<Rightarrow> int \<Rightarrow> store \<Rightarrow> store" where
  "ticket_update_sold tid n s =
     s\<lparr>tickets := map (\<lambda>t. if ticket_id t = tid
                             then t\<lparr>ticket_sold := ticket_sold t + n\<rparr> else t)
                      (tickets s)\<rparr>"

definition event_update_bookedSeats :: "string \<Rightarrow> int \<Rightarrow> store \<Rightarrow> store" where
  "event_update_bookedSeats eid n s =
     s\<lparr>events := map (\<lambda>e. if event_id e = eid
                            then e\<lparr>event_bookedSeats := event_bookedSeats e + n\<rparr> else e)
                     (events s)\<rparr>"

definition discountCoupon_update_used :: "string \<Rightarrow> store \<Rightarrow> store" where
  "discountCoupon_update_used cid s =
     s\<lparr>discountCoupons := map (\<lambda>c. if coupon_id c = cid then c\<lparr>coupon_isUsed := True\<rparr> else c)
                              (discountCoupons s)\<rparr>"

definition transactionCoupon_create :: "TransactionCoupon \<Rightarrow> store \<Rightarrow> store" where
  "transactionCoupon_create tc s = s\<lparr>transactionCoupons := transactionCoupons s @ [tc]\<rparr>"

text \<open>
  The loop \<open>for (let i = 0; i < items.length; i++)\<close> pairs \<open>items[i]\<close> with
  \<open>ticketUpdates[i]\<close>; the two lists have the same length.
\<close>

fun create_items :: "string \<Rightarrow> (LineItem \<times> TicketUpdate) list \<Rightarrow> store \<Rightarrow> store" where
  "create_items txid [] s = s"
| "create_items txid ((item, ticketUpdate) # rest) s =
     create_items txid rest
       (ticket_update_sold (li_ticketId item) (li_quantity item)
          (transactionItem_create
             \<lparr>ti_transactionId = txid, ti_ticketId = li_ticketId item,
              ti_quantity = li_quantity item, ti_unitPrice = tu_price ticketUpdate,
              ti_totalPrice = tu_price ticketUpdate * li_quantity item\<rparr> s))"

fun mark_coupons :: "string \<Rightarrow> string list \<Rightarrow> store \<Rightarrow> store" where
  "mark_coupons txid [] s = s"
| "mark_coupons txid (couponId # rest) s =
     mark_coupons txid rest
       (transactionCoupon_create \<lparr>tc_transactionId = txid, tc_discountCouponId = couponId\<rparr>
          (discountCoupon_update_used couponId s))"

definition point_update_used :: "string \<Rightarrow> string \<Rightarrow> Point list \<Rightarrow> Point list" where
  "point_update_used pid uid ps =
     map (\<lambda>p. if point_id p = pid then p\<lparr>point_isUsed := True, point_usedById := Some uid\<rparr>
               else p) ps"

text \<open>
  The loop over \<open>userPoints\<close>: it yields the points table and what is left of
  \<open>remainingPointsToUse\<close>.
\<close>

fun mark_points :: "string \<Rightarrow> Point list \<Rightarrow> int \<Rightarrow> Point list \<Rightarrow> Point list \<times> int" where
  "mark_points uid [] remaining ps = (ps, remaining)"
| "mark_points uid (point # rest) remaining ps =
     (if remaining \<le> 0 then (ps, remaining)
      else if point_amount point \<le> remaining
      then mark_points uid rest (remaining - point_amount point)
             (point_update_used (point_id point) uid ps)
      else mark_points uid rest remaining ps)"

definition live_point :: "env \<Rightarrow> string \<Rightarrow> Point \<Rightarrow> bool" where
  "live_point env uid p =
     (point_earnedById p = Some uid \<and> \<not> point_isUsed p \<and> now env \<le> point_expiresAt p)"

definition userPoints_of :: "env \<Rightarrow> string \<Rightarrow> Point list \<Rightarrow> Point list" where
  "userPoints_of env uid ps = sort_key point_createdAt (filter (live_point env uid) ps)"

definition debit_marks :: "env \<Rightarrow> string \<Rightarrow> int \<Rightarrow> Point list \<Rightarrow> Point list" where
  "debit_marks env uid pointsToUse ps =
     (if pointsToUse > 0 then fst (mark_points uid (userPoints_of env uid ps) pointsToUse ps)
      else ps)"

definition deduct_points :: "env \<Rightarrow> string \<Rightarrow> int \<Rightarrow> store \<Rightarrow> store" where
  "deduct_points env uid pointsToUse s =
     (if pointsToUse > 0
      then (let s1 = user_update_pointsBalance uid (- pointsToUse) s
            in s1\<lparr>points := debit_marks env uid pointsToUse (points s1)\<rparr>)
      else s)"

definition award_points :: "env \<Rightarrow> string \<Rightarrow> int \<Rightarrow> string \<Rightarrow> conn \<Rightarrow> conn" where
  "award_points env uid finalAmount eventName c =
     (let earnedPoints = calculatePoints finalAmount
      in if earnedPoints > 0
         then addPointsToUser env uid earnedPoints (''Purchase points for '' @ eventName) c
         else c)"

definition new_transaction :: "env \<Rightarrow> string \<Rightarrow> validatedData \<Rightarrow> priced \<Rightarrow> Transaction" where
  "new_transaction env uid v pr =
     \<lparr>tx_id = uuid_transaction env, tx_userId = uid, tx_eventId = v_eventId v,
      tx_totalAmount = pr_totalAmount pr, tx_discountAmount = pr_discountAmount pr,
      tx_finalAmount = pr_finalAmount pr, tx_pointsUsed = pr_pointsToUse pr,
      tx_status = COMPLETED\<rparr>"

definition settle_writes :: "env \<Rightarrow> string \<Rightarrow> validatedData \<Rightarrow> priced \<Rightarrow> store \<Rightarrow> store" where
  "settle_writes env uid v pr s =
     (let transaction = new_transaction env uid v pr;
          s1 = transaction_create transaction s;
          s2 = create_items (tx_id transaction) (zip (v_items v) (pr_ticketUpdates pr)) s1;
          s3 = event_update_bookedSeats (v_eventId v) (pr_totalTickets pr) s2;
          s4 = mark_coupons (tx_id transaction) (pr_usedCoupons pr) s3
      in deduct_points env uid (pr_pointsToUse pr) s4)"

text \<open>
  The callback of \<open>db.$transaction\<close>. It yields what it returns or throws, and the two
  handles as they are at that moment.
\<close>

definition booking :: "env \<Rightarrow> string \<Rightarrow> validatedData \<Rightarrow> conn \<Rightarrow> (error + Transaction) \<times> conn" where
  "booking env uid v c =
     (case price env uid v (prisma c) of
        Inl e \<Rightarrow> (Inl e, c)
      | Inr pr \<Rightarrow>
          (Inr (new_transaction env uid v pr),
           award_points env uid (pr_finalAmount pr) (pr_eventName pr)
             (on_prisma (settle_writes env uid v pr) c)))"

text \<open>
  \<open>db.$transaction\<close>: the callback runs on a client whose writes reach the database when
  the transaction commits; when the callback throws, the transaction has timed out or
  the commit fails, they are dropped and the database is left with what was written
  through \<open>db\<close> alone.
\<close>

definition db_transaction ::
  "env \<Rightarrow> (conn \<Rightarrow> (error + 'a) \<times> conn) \<Rightarrow> store \<Rightarrow> (error + 'a) \<times> store" where
  "db_transaction env callback s =
     (case callback (begin_transaction s) of
        (Inl e, c) \<Rightarrow> (Inl e, db c)
      | (Inr r, c) \<Rightarrow>
          if commits env \<and> \<not> timed_out c then (Inr r, prisma c)
          else (Inl TransactionAborted, db c))"

definition bookTickets :: "env \<Rightarrow> string \<Rightarrow> request \<Rightarrow> store \<Rightarrow> (error + Transaction) \<times> store" where
  "bookTickets env uid req s =
     (case transactionSchema_parse req of
        Inl e \<Rightarrow> (Inl e, s)
      | Inr v \<Rightarrow> db_transaction env (booking env uid v) s)"

section \<open>Notions of the specification\<close>

text \<open>The points a request asks for: \<open>pointsToUse\<close>, zero when the body leaves it out.\<close>

definition requestedPoints :: "request \<Rightarrow> int" where
  "requestedPoints req = (case req_pointsToUse req of None \<Rightarrow> 0 | Some p \<Rightarrow> p)"

text \<open>
  The specification's \<open>EventNotBookable\<close> names the two errors the callback throws for a
  missing and for an unpublished event.
\<close>

definition EventNotBookable :: "error \<Rightarrow> bool" where
  "EventNotBookable e =
     (e = Error ''Event not found'' \<or> e = Error ''Event is not available for booking'')"

text \<open>
  The ledger side of a user's balance: the sum of the grants the user earned that are
  unused and unexpired.
\<close>

definition live_points_sum :: "env \<Rightarrow> string \<Rightarrow> store \<Rightarrow> int" where
  "live_points_sum env uid s =
     sum_list (map point_amount (filter (live_point env uid) (points s)))"

text \<open>The coupons a user can still redeem: the user's own, unused and unexpired.\<close>

definition usable_coupons :: "env \<Rightarrow> string \<Rightarrow> store \<Rightarrow> DiscountCoupon list" where
  "usable_coupons env uid s =
     filter (\<lambda>c. coupon_userId c = uid \<and> \<not> coupon_isUsed c \<and> now env \<le> coupon_expiresAt c)
       (discountCoupons s)"

text \<open>
  Following the specification's words (section 4.3): go through the user's live grants,
  oldest first, until the requirement is covered; a grant whose amount fits into what is
  left of the requirement is consumed whole, a grant that does not fit is passed over.
  The result is the list of the grants consumed.
\<close>

fun grants_consumed :: "int \<Rightarrow> Point list \<Rightarrow> Point list" where
  "grants_consumed need [] = []"
| "grants_consumed need (g # gs) =
     (if need \<le> 0 then []
      else if point_amount g \<le> need then g # grants_consumed (need - point_amount g) gs
      else grants_consumed need gs)"

section \<open>Example data\<close>

definition ex_env :: env where
  "ex_env = \<lparr>now = 100, addMonths = (\<lambda>n t. t + 30 * n), uuid_transaction = ''T'',
             uuid_point = ''P'', commits = True\<rparr>"

definition ex_event :: Event where
  "ex_event = \<lparr>event_id = ''E'', event_name = ''Gig'', event_availableSeats = 100,
               event_bookedSeats = 8, event_status = PUBLISHED\<rparr>"

definition ex_ticket :: Ticket where
  "ex_ticket = \<lparr>ticket_id = ''K'', ticket_eventId = ''E'', ticket_type = REGULAR,
                ticket_price = 3000, ticket_quantity = 10, ticket_sold = 8\<rparr>"

definition ex_grant :: Point where
  "ex_grant = \<lparr>point_id = ''G'', point_earnedById = Some ''U'', point_usedById = None,
               point_amount = 5000, point_description = ''Referral'', point_expiresAt = 200,
               point_isUsed = False, point_createdAt = 1\<rparr>"

definition ex_store :: store where
  "ex_store = \<lparr>events = [ex_event], tickets = [ex_ticket],
               users = [\<lparr>user_id = ''U'', user_pointsBalance = 5000\<rparr>],
               points = [ex_grant], discountCoupons = [], transactions = [],
               transactionItems = [], transactionCoupons = []\<rparr>"

text \<open>Two tickets at 3000 each, 8000 points asked for with a balance of 5000.\<close>

definition ex_request :: request where
  "ex_request = \<lparr>req_eventId = ''E'',
                 req_items = [\<lparr>li_ticketId = ''K'', li_quantity = 2\<rparr>],
                 req_couponCode = None, req_pointsToUse = Some 8000\<rparr>"

text \<open>
  That request redeems 5000 points and earns 1: the transaction times out, and the
  database is left with the points credit alone.
\<close>

definition ex_store_timed_out :: store where
  "ex_store_timed_out =
     ex_store\<lparr>users := [\<lparr>user_id = ''U'', user_pointsBalance = 5001\<rparr>],
              points := [ex_grant,
                \<lparr>point_id = ''P'', point_earnedById = Some ''U'', point_usedById = None,
                 point_amount = 1, point_description = ''Purchase points for Gig'',
                 point_expiresAt = 190, point_isUsed = False, point_createdAt = 100\<rparr>]\<rparr>"

text \<open>
  Two unused coupons of the same user with the same percentage; the one created later
  comes first in the table.
\<close>

definition ex_coupon_new :: DiscountCoupon where
  "ex_coupon_new = \<lparr>coupon_id = ''C1'', coupon_userId = ''U'', coupon_code = ''REFNEW'',
                    coupon_discountPercent = 10, coupon_isUsed = False, coupon_expiresAt = 300,
                    coupon_createdAt = 50\<rparr>"

definition ex_coupon_old :: DiscountCoupon where
  "ex_coupon_old = \<lparr>coupon_id = ''C2'', coupon_userId = ''U'', coupon_code = ''REFOLD'',
                    coupon_discountPercent = 10, coupon_isUsed = False, coupon_expiresAt = 300,
                    coupon_createdAt = 20\<rparr>"

definition ex_store_coupons :: store where
  "ex_store_coupons = ex_store\<lparr>discountCoupons := [ex_coupon_new, ex_coupon_old]\<rparr>"

definition ex_request_plain :: request where
  "ex_request_plain = ex_request\<lparr>req_pointsToUse := None\<rparr>"

definition ex_transaction_coupon :: Transaction where
  "ex_transaction_coupon = \<lparr>tx_id = ''T'', tx_userId = ''U'', tx_eventId = ''E'',
                     tx_totalAmount = 6000, tx_discountAmount = 600, tx_finalAmount = 5400,
                     tx_pointsUsed = 0, tx_status = COMPLETED\<rparr>"

definition ex_store_coupons_booked :: store where
  "ex_store_coupons_booked =
     \<lparr>events = [ex_event\<lparr>event_bookedSeats := 10\<rparr>],
      tickets = [ex_ticket\<lparr>ticket_sold := 10\<rparr>],
      users = [\<lparr>user_id = ''U'', user_pointsBalance = 5005\<rparr>],
      points = [ex_grant,
                \<lparr>point_id = ''P'', point_earnedById = Some ''U'', point_usedById = None,
                 point_amount = 5, point_description = ''Purchase points for Gig'',
                 point_expiresAt = 190, point_isUsed = False, point_createdAt = 100\<rparr>],
      discountCoupons = [ex_coupon_new\<lparr>coupon_isUsed := True\<rparr>, ex_coupon_old],
      transactions = [ex_transaction_coupon],
      transactionItems = [\<lparr>ti_transactionId = ''T'', ti_ticketId = ''K'', ti_quantity = 2,
                           ti_unitPrice = 3000, ti_totalPrice = 6000\<rparr>],
      transactionCoupons = [\<lparr>tc_transactionId = ''T'', tc_discountCouponId = ''C1''\<rparr>]\<rparr>"

text \<open>
  A user with three live grants of 60, 5000 and 30 points, oldest first, and a balance of
  5090; tickets at 300, two of them booked with 100 points asked for: the amount left to
  pay, 500, earns no points.
\<close>

definition ex_grant_60 :: Point where
  "ex_grant_60 = ex_grant\<lparr>point_id := ''G1'', point_amount := 60, point_createdAt := 1\<rparr>"

definition ex_grant_5000 :: Point where
  "ex_grant_5000 = ex_grant\<lparr>point_id := ''G2'', point_amount := 5000, point_createdAt := 2\<rparr>"

definition ex_grant_30 :: Point where
  "ex_grant_30 = ex_grant\<lparr>point_id := ''G3'', point_amount := 30, point_createdAt := 3\<rparr>"

definition ex_store_ledger :: store where
  "ex_store_ledger =
     ex_store\<lparr>tickets := [ex_ticket\<lparr>ticket_price := 300\<rparr>],
              users := [\<lparr>user_id = ''U'', user_pointsBalance = 5090\<rparr>],
              points := [ex_grant_60, ex_grant_5000, ex_grant_30]\<rparr>"

definition ex_request_100 :: request where
  "ex_request_100 = ex_request\<lparr>req_pointsToUse := Some 100\<rparr>"

definition ex_transaction_100 :: Transaction where
  "ex_transaction_100 = \<lparr>tx_id = ''T'', tx_userId = ''U'', tx_eventId = ''E'',
                     tx_totalAmount = 600, tx_discountAmount = 0, tx_finalAmount = 500,
                     tx_pointsUsed = 100, tx_status = COMPLETED\<rparr>"

definition ex_store_ledger_booked :: store where
  "ex_store_ledger_booked =
     \<lparr>events = [ex_event\<lparr>event_bookedSeats := 10\<rparr>],
      tickets = [ex_ticket\<lparr>ticket_price := 300, ticket_sold := 10\<rparr>],
      users = [\<lparr>user_id = ''U'', user_pointsBalance = 4990\<rparr>],
      points = [ex_grant_60\<lparr>point_isUsed := True, point_usedById := Some ''U''\<rparr>,
                ex_grant_5000,
                ex_grant_30\<lparr>point_isUsed := True, point_usedById := Some ''U''\<rparr>],
      discountCoupons = [],
      transactions = [ex_transaction_100],
      transactionItems = [\<lparr>ti_transactionId = ''T'', ti_ticketId = ''K'', ti_quantity = 2,
                           ti_unitPrice = 300, ti_totalPrice = 600\<rparr>],
      transactionCoupons = []\<rparr>"

text \<open>A coupon code that no coupon carries; no points asked for.\<close>

definition ex_request_nope :: request where
  "ex_request_nope = ex_request_plain\<lparr>req_couponCode := Some ''NOPE''\<rparr>"

definition ex_transaction_full :: Transaction where
  "ex_transaction_full = \<lparr>tx_id = ''T'', tx_userId = ''U'', tx_eventId = ''E'',
                     tx_totalAmount = 6000, tx_discountAmount = 0, tx_finalAmount = 6000,
                     tx_pointsUsed = 0, tx_status = COMPLETED\<rparr>"

definition ex_grant_earned :: Point where
  "ex_grant_earned = \<lparr>point_id = ''P'', point_earnedById = Some ''U'', point_usedById = None,
                      point_amount = 6, point_description = ''Purchase points for Gig'',
                      point_expiresAt = 190, point_isUsed = False, point_createdAt = 100\<rparr>"

definition ex_store_full_booked :: store where
  "ex_store_full_booked =
     \<lparr>events = [ex_event\<lparr>event_bookedSeats := 10\<rparr>],
      tickets = [ex_ticket\<lparr>ticket_sold := 10\<rparr>],
      users = [\<lparr>user_id = ''U'', user_pointsBalance = 5006\<rparr>],
      points = [ex_grant, ex_grant_earned],
      discountCoupons = [],
      transactions = [ex_transaction_full],
      transactionItems = [\<lparr>ti_transactionId = ''T'', ti_ticketId = ''K'', ti_quantity = 2,
                           ti_unitPrice = 3000, ti_totalPrice = 6000\<rparr>],
      transactionCoupons = []\<rparr>"

text \<open>The same ticket in two line items: 2 + 2 of a ticket with 2 left.\<close>

definition ex_request_twice :: request where
  "ex_request_twice = ex_request_plain\<lparr>req_items :=
      [\<lparr>li_ticketId = ''K'', li_quantity = 2\<rparr>, \<lparr>li_ticketId = ''K'', li_quantity = 2\<rparr>]\<rparr>"

definition ex_transaction_twice :: Transaction where
  "ex_transaction_twice = \<lparr>tx_id = ''T'', tx_userId = ''U'', tx_eventId = ''E'',
                     tx_totalAmount = 12000, tx_discountAmount = 0, tx_finalAmount = 12000,
                     tx_pointsUsed = 0, tx_status = COMPLETED\<rparr>"

text \<open>A request whose transaction the database does not commit.\<close>

definition ex_env_abort :: env where
  "ex_env_abort = ex_env\<lparr>commits := False\<rparr>"

text \<open>A usable coupon that belongs to another user, and a request that names its code.\<close>

definition ex_coupon_foreign :: DiscountCoupon where
  "ex_coupon_foreign = ex_coupon_new\<lparr>coupon_userId := ''V''\<rparr>"

definition ex_store_foreign :: store where
  "ex_store_foreign = ex_store\<lparr>discountCoupons := [ex_coupon_foreign]\<rparr>"

definition ex_request_foreign :: request where
  "ex_request_foreign = ex_request_plain\<lparr>req_couponCode := Some ''REFNEW''\<rparr>"

section \<open>Evaluating the examples\<close>

lemmas booking_defs =
  bookTickets_def db_transaction_def booking_def transactionSchema_parse_def price_def
  event_findUnique_def user_findUnique_def totalTickets_of_def apply_coupon_def
  explicit_coupon_def available_coupon_def findFirst_desc_def settle_writes_def
  new_transaction_def transaction_create_def transactionItem_create_def
  ticket_update_sold_def event_update_bookedSeats_def discountCoupon_update_used_def
  transactionCoupon_create_def deduct_points_def debit_marks_def userPoints_of_def
  live_point_def point_update_used_def award_points_def addPointsToUser_def
  calculatePoints_def point_create_def user_update_pointsBalance_def on_prisma_def on_db_def
  begin_transaction_def users_changed_def Let_def

lemmas example_defs =
  ex_env_def ex_request_def ex_store_def ex_event_def ex_ticket_def ex_grant_def
  ex_store_timed_out_def ex_coupon_new_def ex_coupon_old_def
  ex_store_coupons_def ex_request_plain_def ex_transaction_coupon_def
  ex_store_coupons_booked_def ex_grant_60_def ex_grant_5000_def ex_grant_30_def
  ex_store_ledger_def ex_request_100_def ex_transaction_100_def ex_store_ledger_booked_def
  ex_request_nope_def ex_transaction_full_def ex_grant_earned_def ex_store_full_booked_def
  ex_request_twice_def ex_transaction_twice_def ex_env_abort_def
  ex_coupon_foreign_def ex_store_foreign_def ex_request_foreign_def

lemma ex_booking_coupons:
  "bookTickets ex_env ''U'' ex_request_plain ex_store_coupons
     = (Inr ex_transaction_coupon, ex_store_coupons_booked)"
  by (simp add: booking_defs example_defs)

section \<open>Decomposing a booking\<close>

lemma price_Inr:
  assumes "price env uid v s = Inr pr"
  obtains event user where
    "event_findUnique (v_eventId v) s = Some event"
    "event_status event = PUBLISHED"
    "validate_items (filter (\<lambda>t. ticket_eventId t = event_id event) (tickets s)) (v_items v) 0 []
       = Inr (pr_totalAmount pr, pr_ticketUpdates pr)"
    "event_bookedSeats event + totalTickets_of (v_items v) \<le> event_availableSeats event"
    "apply_coupon env uid (v_couponCode v) (pr_totalAmount pr) (discountCoupons s)
       = (pr_discountAmount pr, pr_usedCoupons pr)"
    "user_findUnique uid s = Some user"
    "pr_pointsToUse pr = min (v_pointsToUse v)
       (min (user_pointsBalance user) (pr_totalAmount pr - pr_discountAmount pr))"
    "pr_finalAmount pr = pr_totalAmount pr - pr_discountAmount pr - pr_pointsToUse pr"
    "pr_totalTickets pr = totalTickets_of (v_items v)"
    "pr_eventName pr = event_name event"
  using assms unfolding price_def
  by (auto simp: Let_def split: option.splits if_splits sum.splits prod.splits)

lemma parse_Inr:
  assumes "transactionSchema_parse req = Inr v"
  shows "v_eventId v = req_eventId req" "v_items v = req_items req"
    "v_couponCode v = req_couponCode req"
    "v_pointsToUse v = (case req_pointsToUse req of None \<Rightarrow> 0 | Some p \<Rightarrow> p)"
    "list_all (\<lambda>i. 1 \<le> li_quantity i) (req_items req)"
    "0 \<le> v_pointsToUse v"
  using assms unfolding transactionSchema_parse_def
  by (auto split: if_splits option.splits)

lemma create_items_frame [simp]:
  "events (create_items t zs s) = events s"
  "users (create_items t zs s) = users s"
  "points (create_items t zs s) = points s"
  "discountCoupons (create_items t zs s) = discountCoupons s"
  "transactions (create_items t zs s) = transactions s"
  "transactionCoupons (create_items t zs s) = transactionCoupons s"
  by (induction t zs s rule: create_items.induct)
     (simp_all add: ticket_update_sold_def transactionItem_create_def)

lemma mark_coupons_frame [simp]:
  "events (mark_coupons t cs s) = events s"
  "tickets (mark_coupons t cs s) = tickets s"
  "users (mark_coupons t cs s) = users s"
  "points (mark_coupons t cs s) = points s"
  "transactions (mark_coupons t cs s) = transactions s"
  "transactionItems (mark_coupons t cs s) = transactionItems s"
  by (induction t cs s rule: mark_coupons.induct)
     (simp_all add: discountCoupon_update_used_def transactionCoupon_create_def)

lemma deduct_points_frame [simp]:
  "events (deduct_points env uid n s) = events s"
  "tickets (deduct_points env uid n s) = tickets s"
  "discountCoupons (deduct_points env uid n s) = discountCoupons s"
  "transactions (deduct_points env uid n s) = transactions s"
  "transactionItems (deduct_points env uid n s) = transactionItems s"
  "transactionCoupons (deduct_points env uid n s) = transactionCoupons s"
  by (simp_all add: deduct_points_def user_update_pointsBalance_def Let_def)

lemma deduct_points_points:
  "points (deduct_points env uid n s) = debit_marks env uid n (points s)"
  by (simp add: deduct_points_def user_update_pointsBalance_def Let_def debit_marks_def)

lemma deduct_points_users:
  "users (deduct_points env uid n s) =
     (if 0 < n then users (user_update_pointsBalance uid (- n) s) else users s)"
  by (simp add: deduct_points_def user_update_pointsBalance_def Let_def)

lemma mark_coupons_coupons:
  "discountCoupons (mark_coupons t cs s) =
     foldl (\<lambda>rows cid. map (\<lambda>c. if coupon_id c = cid then c\<lparr>coupon_isUsed := True\<rparr> else c) rows)
       (discountCoupons s) cs"
  "transactionCoupons (mark_coupons t cs s) =
     transactionCoupons s @ map (\<lambda>cid. \<lparr>tc_transactionId = t, tc_discountCouponId = cid\<rparr>) cs"
  by (induction t cs s rule: mark_coupons.induct)
     (simp_all add: discountCoupon_update_used_def transactionCoupon_create_def)

lemma settle_writes_tables:
  "events (settle_writes env uid v pr s)
     = events (event_update_bookedSeats (v_eventId v) (pr_totalTickets pr) s)"
  "users (settle_writes env uid v pr s)
     = (if 0 < pr_pointsToUse pr
        then users (user_update_pointsBalance uid (- pr_pointsToUse pr) s) else users s)"
  "points (settle_writes env uid v pr s) = debit_marks env uid (pr_pointsToUse pr) (points s)"
  "transactions (settle_writes env uid v pr s) = transactions s @ [new_transaction env uid v pr]"
  "discountCoupons (settle_writes env uid v pr s)
     = discountCoupons (mark_coupons (uuid_transaction env) (pr_usedCoupons pr) s)"
  "transactionCoupons (settle_writes env uid v pr s)
     = transactionCoupons (mark_coupons (uuid_transaction env) (pr_usedCoupons pr) s)"
  by (simp_all add: settle_writes_def Let_def deduct_points_points deduct_points_users
        mark_coupons_coupons event_update_bookedSeats_def transaction_create_def
        user_update_pointsBalance_def new_transaction_def)

lemma award_points_prisma:
  "prisma (award_points env uid fa nm c) =
     (if 0 < fa div 1000
      then user_update_pointsBalance uid (fa div 1000)
             (point_create \<lparr>point_id = uuid_point env, point_earnedById = Some uid,
                  point_usedById = None, point_amount = fa div 1000,
                  point_description = ''Purchase points for '' @ nm,
                  point_expiresAt = addMonths env 3 (now env),
                  point_isUsed = False, point_createdAt = now env\<rparr> (prisma c))
      else prisma c)"
  by (simp add: award_points_def addPointsToUser_def calculatePoints_def on_db_def Let_def)

lemma award_points_db:
  "db (award_points env uid fa nm c) =
     (if 0 < fa div 1000
      then user_update_pointsBalance uid (fa div 1000)
             (point_create \<lparr>point_id = uuid_point env, point_earnedById = Some uid,
                  point_usedById = None, point_amount = fa div 1000,
                  point_description = ''Purchase points for '' @ nm,
                  point_expiresAt = addMonths env 3 (now env),
                  point_isUsed = False, point_createdAt = now env\<rparr> (db c))
      else db c)"
  by (simp add: award_points_def addPointsToUser_def calculatePoints_def on_db_def Let_def)

lemma conn_projections [simp]:
  "prisma (on_prisma f c) = f (prisma c)"
  "db (on_prisma f c) = db c"
  "timed_out (on_prisma f c) = timed_out c"
  "prisma (on_db f c) = f (prisma c)"
  "db (on_db f c) = f (db c)"
  "locked (on_db f c) = locked c"
  "prisma (begin_transaction s) = s"
  "db (begin_transaction s) = s"
  "locked (begin_transaction s) = []"
  "timed_out (begin_transaction s) = False"
  by (simp_all add: on_prisma_def on_db_def begin_transaction_def)

text \<open>Which user rows the two updates of a balance change.\<close>

lemma user_update_changes_row:
  "(u\<lparr>user_pointsBalance := user_pointsBalance u + n\<rparr> = u) = (n = 0)"
  "(u = u\<lparr>user_pointsBalance := user_pointsBalance u + n\<rparr>) = (n = 0)"
  by (cases u; simp)+

lemma changed_rows_update:
  "map (\<lambda>(u, u'). user_id u)
     (filter (\<lambda>(u, u'). u \<noteq> u')
        (zip us (map (\<lambda>u. if user_id u = uid
                          then u\<lparr>user_pointsBalance := user_pointsBalance u + n\<rparr>
                          else u) us)))
   = (if n = 0 then [] else filter (\<lambda>i. i = uid) (map user_id us))"
  by (induction us) (simp_all add: user_update_changes_row)

lemma users_changed_update:
  "users_changed s (user_update_pointsBalance uid n s) =
     (if n = 0 then [] else filter (\<lambda>i. i = uid) (map user_id (users s)))"
proof -
  have u: "users (user_update_pointsBalance uid n s)
             = map (\<lambda>u. if user_id u = uid
                         then u\<lparr>user_pointsBalance := user_pointsBalance u + n\<rparr>
                         else u) (users s)"
    by (simp add: user_update_pointsBalance_def)
  show ?thesis
    unfolding users_changed_def u by (rule changed_rows_update)
qed

lemma users_changed_same:
  assumes "users s' = users s"
  shows "users_changed s s' = []"
proof -
  have "filter (\<lambda>(u, u'). u \<noteq> u') (zip us us) = []" for us :: "User list"
    by (induction us) simp_all
  with assms show ?thesis
    by (simp add: users_changed_def)
qed

lemma users_changed_users:
  assumes "users s1 = users s2" and "users s1' = users s2'"
  shows "users_changed s1 s1' = users_changed s2 s2'"
  using assms by (simp add: users_changed_def)

lemma locked_settle_writes:
  "locked (on_prisma (settle_writes env uid v pr) (begin_transaction s)) =
     (if 0 < pr_pointsToUse pr then filter (\<lambda>i. i = uid) (map user_id (users s)) else [])"
proof (cases "0 < pr_pointsToUse pr")
  case True
  then have "users (settle_writes env uid v pr s)
               = users (user_update_pointsBalance uid (- pr_pointsToUse pr) s)"
    by (simp add: settle_writes_tables)
  then have "users_changed s (settle_writes env uid v pr s)
               = users_changed s (user_update_pointsBalance uid (- pr_pointsToUse pr) s)"
    by (intro users_changed_users) simp_all
  with True show ?thesis
    by (simp add: on_prisma_def begin_transaction_def users_changed_update)
next
  case False
  then have "users (settle_writes env uid v pr s) = users s"
    by (simp add: settle_writes_tables)
  then have "users_changed s (settle_writes env uid v pr s) = []"
    by (rule users_changed_same)
  with False show ?thesis
    by (simp add: on_prisma_def begin_transaction_def)
qed

text \<open>
  The callback brings its own transaction to the timeout exactly when it both redeems
  points and earns points: the credit then waits for the user row the debit locked.
\<close>

lemma timed_out_on_db:
  "timed_out (on_db f c) =
     (timed_out c \<or> list_ex (\<lambda>uid. uid \<in> set (locked c)) (users_changed (db c) (f (db c))))"
  by (simp add: on_db_def)

lemma booking_timed_out:
  assumes "user_findUnique uid s = Some u"
  shows "timed_out (award_points env uid fa nm
                      (on_prisma (settle_writes env uid v pr) (begin_transaction s)))
         \<longleftrightarrow> 0 < pr_pointsToUse pr \<and> 0 < calculatePoints fa"
proof (cases "0 < calculatePoints fa")
  case False
  then show ?thesis
    by (simp add: award_points_def)
next
  case True
  let ?c0 = "on_prisma (settle_writes env uid v pr) (begin_transaction s)"
  let ?g = "\<lparr>point_id = uuid_point env, point_earnedById = Some uid,
              point_usedById = None, point_amount = calculatePoints fa,
              point_description = ''Purchase points for '' @ nm,
              point_expiresAt = addMonths env 3 (now env),
              point_isUsed = False, point_createdAt = now env\<rparr>"
  let ?c1 = "on_db (point_create ?g) ?c0"
  let ?rows = "filter (\<lambda>i. i = uid) (map user_id (users s))"
  from assms have "uid \<in> set (map user_id (users s))"
    using find_Some_iff [of "\<lambda>u. user_id u = uid" "users s" u]
    by (auto simp: user_findUnique_def)
  then have mem: "uid \<in> set ?rows" by simp
  have all: "\<forall>i\<in>set ?rows. i = uid" by simp
  have award: "award_points env uid fa nm ?c0
                 = on_db (user_update_pointsBalance uid (calculatePoints fa)) ?c1"
    using True by (simp add: award_points_def addPointsToUser_def Let_def)
  have "users_changed (db ?c0) (point_create ?g (db ?c0)) = []"
    by (rule users_changed_same) (simp add: point_create_def)
  then have t1: "\<not> timed_out ?c1"
    by (simp add: timed_out_on_db)
  have l1: "locked ?c1 = (if 0 < pr_pointsToUse pr then ?rows else [])"
    by (simp add: locked_settle_writes)
  have "users (db ?c1) = users s"
    by (simp add: point_create_def)
  then have "users_changed (db ?c1)
               (user_update_pointsBalance uid (calculatePoints fa) (db ?c1)) = ?rows"
    using True by (simp add: users_changed_update)
  then have "timed_out (on_db (user_update_pointsBalance uid (calculatePoints fa)) ?c1)
               \<longleftrightarrow> list_ex (\<lambda>i. i \<in> set (locked ?c1)) ?rows"
    using t1 by (simp only: timed_out_on_db simp_thms)
  also have "\<dots> \<longleftrightarrow> 0 < pr_pointsToUse pr"
  proof (cases "0 < pr_pointsToUse pr")
    case True
    with l1 mem show ?thesis
      unfolding list_ex_iff by auto
  next
    case False
    with l1 show ?thesis
      unfolding list_ex_iff by simp
  qed
  finally show ?thesis
    using True award by simp
qed

lemma bookTickets_cases:
  assumes "bookTickets env uid req s = (r, s')"
  obtains
    (invalid) "transactionSchema_parse req = Inl ZodError" "r = Inl ZodError" "s' = s"
  | (thrown) v e where "transactionSchema_parse req = Inr v" "price env uid v s = Inl e"
      "r = Inl e" "s' = s"
  | (aborted) v pr where "transactionSchema_parse req = Inr v" "price env uid v s = Inr pr"
      "\<not> commits env
       \<or> (0 < pr_pointsToUse pr \<and> 0 < calculatePoints (pr_finalAmount pr))"
      "r = Inl TransactionAborted"
      "s' = db (award_points env uid (pr_finalAmount pr) (pr_eventName pr)
                  (on_prisma (settle_writes env uid v pr) (begin_transaction s)))"
  | (committed) v pr where "transactionSchema_parse req = Inr v" "price env uid v s = Inr pr"
      "commits env" "r = Inr (new_transaction env uid v pr)"
      "s' = prisma (award_points env uid (pr_finalAmount pr) (pr_eventName pr)
                  (on_prisma (settle_writes env uid v pr) (begin_transaction s)))"
      "\<not> (0 < pr_pointsToUse pr \<and> 0 < calculatePoints (pr_finalAmount pr))"
proof (cases "transactionSchema_parse req")
  case (Inl e)
  then have e: "e = ZodError"
    by (auto simp: transactionSchema_parse_def split: if_splits)
  from Inl assms have "r = Inl e" "s' = s"
    by (simp_all add: bookTickets_def)
  with Inl e show ?thesis
    by (intro invalid) simp_all
next
  case (Inr v)
  show ?thesis
  proof (cases "price env uid v s")
    case (Inl e)
    with Inr assms have "r = Inl e" "s' = s"
      by (simp_all add: bookTickets_def db_transaction_def booking_def)
    with Inr Inl show ?thesis
      by (intro thrown)
  next
    case pr: (Inr pr)
    let ?c = "award_points env uid (pr_finalAmount pr) (pr_eventName pr)
                (on_prisma (settle_writes env uid v pr) (begin_transaction s))"
    from pr obtain u :: User where "user_findUnique uid s = Some u"
      by (rule price_Inr)
    then have late: "timed_out ?c
        \<longleftrightarrow> 0 < pr_pointsToUse pr \<and> 0 < calculatePoints (pr_finalAmount pr)"
      by (rule booking_timed_out)
    from Inr pr assms have run:
      "(if commits env \<and> \<not> timed_out ?c then (Inr (new_transaction env uid v pr), prisma ?c)
        else (Inl TransactionAborted, db ?c)) = (r, s')"
      by (simp add: bookTickets_def db_transaction_def booking_def)
    show ?thesis
    proof (cases "commits env \<and> \<not> timed_out ?c")
      case True
      with run have rs: "r = Inr (new_transaction env uid v pr)" "s' = prisma ?c"
        by simp_all
      from True late have c: "commits env"
        and free: "\<not> (0 < pr_pointsToUse pr \<and> 0 < calculatePoints (pr_finalAmount pr))"
        by simp_all
      from Inr pr c rs free show ?thesis
        by (rule committed)
    next
      case False
      with run have rs: "r = Inl TransactionAborted" "s' = db ?c"
        by simp_all
      from False late have
        stop: "\<not> commits env
               \<or> (0 < pr_pointsToUse pr \<and> 0 < calculatePoints (pr_finalAmount pr))"
        by simp
      from Inr pr stop rs show ?thesis
        by (rule aborted)
    qed
  qed
qed

section \<open>Properties of the booking route\<close>

lemma award_points_transactions [simp]:
  "transactions (prisma (award_points env uid fa nm c)) = transactions (prisma c)"
  "transactions (db (award_points env uid fa nm c)) = transactions (db c)"
  by (simp_all add: award_points_prisma award_points_db user_update_pointsBalance_def
        point_create_def)

text \<open>
  Claim C10. Whatever its outcome, a call of \<open>bookTickets\<close> adds to the transactions table
  at most the one transaction it returns, and that transaction is created with status
  \<open>COMPLETED\<close>: no row is ever written with status \<open>PENDING\<close>.
\<close>

theorem created_transaction_is_completed:
  assumes "bookTickets env uid req s = (r, s')"
  shows "case r of
           Inr txn \<Rightarrow> tx_status txn = COMPLETED \<and> transactions s' = transactions s @ [txn]
         | Inl e \<Rightarrow> transactions s' = transactions s"
  using assms
proof (cases rule: bookTickets_cases)
  case (committed v pr)
  then show ?thesis
    by (simp add: settle_writes_tables new_transaction_def)
qed simp_all

theorem created_transaction_is_completed_witness:
  "bookTickets ex_env ''U'' ex_request_plain ex_store_coupons
     = (Inr ex_transaction_coupon, ex_store_coupons_booked)
   \<and> tx_status ex_transaction_coupon = COMPLETED
   \<and> transactions ex_store_coupons_booked
       = transactions ex_store_coupons @ [ex_transaction_coupon]"
  using created_transaction_is_completed [OF ex_booking_coupons] ex_booking_coupons by simp

subsection \<open>Points redeemed\<close>

text \<open>
  In every booking the route commits, the points used are the minimum of the points asked
  for, the balance and the amount left after the discount.
\<close>

lemma committed_pointsUsed_is_min:
  assumes "bookTickets env uid req s = (Inr txn, s')"
  shows "\<exists>user. user_findUnique uid s = Some user \<and>
            tx_pointsUsed txn =
              min (requestedPoints req)
                (min (user_pointsBalance user) (tx_totalAmount txn - tx_discountAmount txn))"
  using assms
proof (cases rule: bookTickets_cases)
  case (committed v pr)
  from committed(2) obtain user where u: "user_findUnique uid s = Some user"
    and ptu: "pr_pointsToUse pr = min (v_pointsToUse v)
       (min (user_pointsBalance user) (pr_totalAmount pr - pr_discountAmount pr))"
    by (rule price_Inr)
  from committed(1) have vp: "v_pointsToUse v = requestedPoints req"
    by (simp add: parse_Inr requestedPoints_def)
  from committed(4) have txn: "txn = new_transaction env uid v pr" by simp
  show ?thesis
    using u ptu vp txn by (simp add: new_transaction_def)
qed simp_all

text \<open>
  But no booking that both redeems points and earns points is committed: the credit, sent
  through \<open>db\<close>, waits for the user row the debit has locked, and the transaction times
  out.
\<close>

lemma redeeming_and_earning_never_commits:
  assumes "bookTickets env uid req s = (Inr txn, s')"
  shows "\<not> (0 < tx_pointsUsed txn \<and> 0 < calculatePoints (tx_finalAmount txn))"
  using assms
proof (cases rule: bookTickets_cases)
  case (committed v pr)
  then show ?thesis
    by (simp add: new_transaction_def)
qed simp_all

lemma redeeming_and_earning_times_out:
  assumes "transactionSchema_parse req = Inr v" and "price env uid v s = Inr pr"
    and "0 < pr_pointsToUse pr" and "0 < calculatePoints (pr_finalAmount pr)"
  shows "fst (bookTickets env uid req s) = Inl TransactionAborted"
proof -
  obtain r s' where run: "bookTickets env uid req s = (r, s')"
    by (cases "bookTickets env uid req s")
  from run have "r = Inl TransactionAborted"
  proof (cases rule: bookTickets_cases)
    case invalid
    with assms(1) show ?thesis by simp
  next
    case (thrown v' e)
    with assms(1,2) show ?thesis by simp
  next
    case (aborted v' pr')
    then show ?thesis by simp
  next
    case (committed v' pr')
    with assms show ?thesis by simp
  qed
  with run show ?thesis by simp
qed

text \<open>
  Claim C3: the code breaks it. With a balance of 5000, two tickets at 3000 and 8000
  points asked for, the callback caps the points at 5000 and leaves 1000 to pay, which
  earns 1 point; the credit waits for the user row the debit locked, the transaction
  times out and the request fails, leaving the credit behind. The same request without
  points is booked.
\<close>

theorem capped_points_request_times_out:
  "requestedPoints ex_request = 8000
   \<and> map user_pointsBalance (users ex_store) = [5000]
   \<and> bookTickets ex_env ''U'' ex_request ex_store = (Inl TransactionAborted, ex_store_timed_out)
   \<and> ex_request_plain = ex_request\<lparr>req_pointsToUse := None\<rparr>
   \<and> bookTickets ex_env ''U'' ex_request_plain ex_store
       = (Inr ex_transaction_full, ex_store_full_booked)"
  by (simp add: booking_defs example_defs requestedPoints_def)

subsection \<open>Price identity\<close>

lemma validate_items_total:
  assumes "validate_items tks its tot ups = Inr (tot', ups')"
    and "list_all (\<lambda>i. 1 \<le> li_quantity i) its"
    and "\<forall>t\<in>set tks. 0 \<le> ticket_price t"
  shows "tot \<le> tot'"
  using assms
proof (induction its arbitrary: tot ups)
  case Nil
  then show ?case by simp
next
  case (Cons item rest)
  from Cons.prems(1) obtain ticket where
    f: "find (\<lambda>t. ticket_id t = li_ticketId item) tks = Some ticket"
    and rec: "validate_items tks rest (tot + ticket_price ticket * li_quantity item)
               (ups @ [\<lparr>tu_id = ticket_id ticket, tu_quantity = li_quantity item,
                        tu_price = ticket_price ticket\<rparr>]) = Inr (tot', ups')"
    by (auto split: option.splits if_splits)
  from f have "ticket \<in> set tks"
    by (auto simp: find_Some_iff)
  with Cons.prems(3) have "0 \<le> ticket_price ticket" by blast
  moreover from Cons.prems(2) have "1 \<le> li_quantity item" by simp
  ultimately have "0 \<le> ticket_price ticket * li_quantity item" by simp
  moreover from Cons.IH [OF rec] Cons.prems(2,3)
  have "tot + ticket_price ticket * li_quantity item \<le> tot'" by simp
  ultimately show ?case by linarith
qed

lemma findFirst_desc_Some:
  assumes "findFirst_desc key P rows = Some r"
  shows "r \<in> set rows" "P r" "\<forall>r'\<in>set rows. P r' \<longrightarrow> key r' \<le> key r"
proof -
  from assms obtain rest where srt: "sort_key (\<lambda>r. - key r) (filter P rows) = r # rest"
    by (auto simp: findFirst_desc_def split: list.splits)
  have "set (sort_key (\<lambda>r. - key r) (filter P rows)) = set (filter P rows)"
    by simp
  with srt have mem: "set (filter P rows) = insert r (set rest)" by simp
  then show "r \<in> set rows" "P r" by auto
  have "sorted (map (\<lambda>r. - key r) (sort_key (\<lambda>r. - key r) (filter P rows)))"
    by (rule sorted_sort_key)
  with srt have "\<forall>x\<in>set rest. - key r \<le> - key x" by simp
  with mem show "\<forall>r'\<in>set rows. P r' \<longrightarrow> key r' \<le> key r" by auto
qed

lemma findFirst_desc_None:
  "findFirst_desc key P rows = None \<longleftrightarrow> filter P rows = []"
proof -
  have "length (sort_key (\<lambda>r. - key r) (filter P rows)) = length (filter P rows)"
    by simp
  then have "sort_key (\<lambda>r. - key r) (filter P rows) = [] \<longleftrightarrow> filter P rows = []"
    by (metis length_0_conv)
  then show ?thesis
    by (cases "sort_key (\<lambda>r. - key r) (filter P rows)") (simp_all add: findFirst_desc_def)
qed

lemma apply_coupon_cases:
  assumes "apply_coupon env uid cc amt cs = (d, used)"
  obtains (none) "d = 0" "used = []"
  | (coupon) c where "c \<in> set cs" "d = (amt * coupon_discountPercent c) div 100"
      "used = [coupon_id c]"
proof -
  let ?found = "case cc of
              Some code \<Rightarrow> if code \<noteq> [] then explicit_coupon env code cs
                           else available_coupon env uid cs
            | None \<Rightarrow> available_coupon env uid cs"
  show ?thesis
  proof (cases ?found)
    case None
    with assms have "d = 0" "used = []" by (simp_all add: apply_coupon_def)
    then show ?thesis by (rule none)
  next
    case (Some c)
    with assms have d: "d = (amt * coupon_discountPercent c) div 100" "used = [coupon_id c]"
      by (simp_all add: apply_coupon_def)
    from Some have "explicit_coupon env (the cc) cs = Some c \<or> available_coupon env uid cs = Some c"
      by (auto split: option.splits if_splits)
    then have "c \<in> set cs"
      by (auto simp: explicit_coupon_def available_coupon_def find_Some_iff
               dest: findFirst_desc_Some(1))
    with d show ?thesis by (intro coupon)
  qed
qed

text \<open>
  Claim C2. When every coupon has a percentage between 1 and 100 and no ticket has a
  negative price, the transaction a successful booking persists satisfies
  \<open>finalAmount = totalAmount - discountAmount - pointsUsed\<close> and \<open>finalAmount \<ge> 0\<close>.
\<close>

theorem price_identity:
  assumes "bookTickets env uid req s = (Inr txn, s')"
    and "\<forall>c\<in>set (discountCoupons s).
           1 \<le> coupon_discountPercent c \<and> coupon_discountPercent c \<le> 100"
    and "\<forall>t\<in>set (tickets s). 0 \<le> ticket_price t"
  shows "txn \<in> set (transactions s')
         \<and> tx_finalAmount txn = tx_totalAmount txn - tx_discountAmount txn - tx_pointsUsed txn
         \<and> 0 \<le> tx_finalAmount txn"
  using assms(1)
proof (cases rule: bookTickets_cases)
  case (committed v pr)
  from committed(4) have txn: "txn = new_transaction env uid v pr" by simp
  from committed(2) obtain event :: Event and user :: User where
    val: "validate_items (filter (\<lambda>t. ticket_eventId t = event_id event) (tickets s)) (v_items v) 0 []
       = Inr (pr_totalAmount pr, pr_ticketUpdates pr)"
    and cpn: "apply_coupon env uid (v_couponCode v) (pr_totalAmount pr) (discountCoupons s)
       = (pr_discountAmount pr, pr_usedCoupons pr)"
    and ptu: "pr_pointsToUse pr = min (v_pointsToUse v)
       (min (user_pointsBalance user) (pr_totalAmount pr - pr_discountAmount pr))"
    and fin: "pr_finalAmount pr = pr_totalAmount pr - pr_discountAmount pr - pr_pointsToUse pr"
    by (rule price_Inr) blast
  from committed(1) have "list_all (\<lambda>i. 1 \<le> li_quantity i) (v_items v)"
    by (simp add: parse_Inr)
  with val assms(3) have total: "0 \<le> pr_totalAmount pr"
    by (auto dest: validate_items_total)
  from cpn have "pr_discountAmount pr \<le> pr_totalAmount pr"
  proof (cases rule: apply_coupon_cases)
    case none
    with total show ?thesis by simp
  next
    case (coupon c)
    with assms(2) have "coupon_discountPercent c \<le> 100" by blast
    with total have "pr_totalAmount pr * coupon_discountPercent c \<le> pr_totalAmount pr * 100"
      by (simp add: mult_left_mono)
    then have "(pr_totalAmount pr * coupon_discountPercent c) div 100 \<le> pr_totalAmount pr"
      by linarith
    with coupon show ?thesis by simp
  qed
  with ptu fin have "0 \<le> pr_finalAmount pr" by linarith
  moreover have "txn \<in> set (transactions s')"
    using committed(5) txn by (simp add: settle_writes_tables)
  ultimately show ?thesis
    using fin txn by (simp add: new_transaction_def)
qed simp_all

theorem price_identity_witness:
  "bookTickets ex_env ''U'' ex_request_plain ex_store_coupons
     = (Inr ex_transaction_coupon, ex_store_coupons_booked)
   \<and> list_all (\<lambda>c. 1 \<le> coupon_discountPercent c \<and> coupon_discountPercent c \<le> 100)
         (discountCoupons ex_store_coupons)
   \<and> list_all (\<lambda>t. 0 \<le> ticket_price t) (tickets ex_store_coupons)
   \<and> ex_transaction_coupon \<in> set (transactions ex_store_coupons_booked)
   \<and> tx_finalAmount ex_transaction_coupon
       = tx_totalAmount ex_transaction_coupon - tx_discountAmount ex_transaction_coupon
         - tx_pointsUsed ex_transaction_coupon
   \<and> 0 \<le> tx_finalAmount ex_transaction_coupon"
proof -
  have c: "\<forall>c\<in>set (discountCoupons ex_store_coupons).
          1 \<le> coupon_discountPercent c \<and> coupon_discountPercent c \<le> 100"
    by (simp add: example_defs)
  have t: "\<forall>t\<in>set (tickets ex_store_coupons). 0 \<le> ticket_price t"
    by (simp add: example_defs)
  from price_identity [OF ex_booking_coupons c t] ex_booking_coupons c t
  show ?thesis by (simp add: list_all_iff)
qed

subsection \<open>Events that cannot be booked\<close>

text \<open>
  Claim C8. A request that passes the schema and names an event that does not exist or is
  not \<open>PUBLISHED\<close> fails with one of the two errors the specification calls
  \<open>EventNotBookable\<close>, and the store is left as it was.
\<close>

theorem unbookable_event_rejected:
  assumes "transactionSchema_parse req = Inr v"
    and "case event_findUnique (req_eventId req) s of
           None \<Rightarrow> True | Some event \<Rightarrow> event_status event \<noteq> PUBLISHED"
  shows "\<exists>e. bookTickets env uid req s = (Inl e, s) \<and> EventNotBookable e"
proof -
  from assms(1) have eid: "v_eventId v = req_eventId req"
    by (simp add: parse_Inr)
  with assms(2) have "price env uid v s = Inl (Error ''Event not found'')
      \<or> price env uid v s = Inl (Error ''Event is not available for booking'')"
    by (auto simp: price_def split: option.splits)
  then obtain e where "price env uid v s = Inl e" "EventNotBookable e"
    by (auto simp: EventNotBookable_def)
  with assms(1) show ?thesis
    by (auto simp: bookTickets_def db_transaction_def booking_def)
qed

theorem unbookable_event_rejected_witness:
  "transactionSchema_parse (ex_request\<lparr>req_eventId := ''X''\<rparr>)
     = Inr \<lparr>v_eventId = ''X'', v_items = [\<lparr>li_ticketId = ''K'', li_quantity = 2\<rparr>],
            v_couponCode = None, v_pointsToUse = 8000\<rparr>
   \<and> event_findUnique ''X'' ex_store = None
   \<and> (\<exists>e. bookTickets ex_env ''U'' (ex_request\<lparr>req_eventId := ''X''\<rparr>) ex_store = (Inl e, ex_store)
          \<and> EventNotBookable e)"
proof -
  have p: "transactionSchema_parse (ex_request\<lparr>req_eventId := ''X''\<rparr>)
     = Inr \<lparr>v_eventId = ''X'', v_items = [\<lparr>li_ticketId = ''K'', li_quantity = 2\<rparr>],
            v_couponCode = None, v_pointsToUse = 8000\<rparr>"
    by (simp add: transactionSchema_parse_def ex_request_def)
  have f: "event_findUnique ''X'' ex_store = None"
    by (simp add: event_findUnique_def ex_store_def ex_event_def)
  then have "case event_findUnique (req_eventId (ex_request\<lparr>req_eventId := ''X''\<rparr>)) ex_store of
           None \<Rightarrow> True | Some event \<Rightarrow> event_status event \<noteq> PUBLISHED"
    by simp
  from unbookable_event_rejected [OF p this] p f show ?thesis by blast
qed

subsection \<open>The points debit and the ledger\<close>

lemma distinct_map_Cons_neq:
  assumes "distinct (map f (x # xs))" and "y \<in> set xs"
  shows "f y \<noteq> f x"
proof
  assume "f y = f x"
  with assms(2) have "f x \<in> f ` set xs" by (metis imageI)
  with assms(1) show False by simp
qed

lemma point_update_used_ids [simp]:
  "map point_id (point_update_used pid uid ps) = map point_id ps"
  by (induction ps) (simp_all add: point_update_used_def)

lemma point_update_used_other:
  assumes "\<forall>q\<in>set ps. point_id q \<noteq> pid"
  shows "point_update_used pid uid ps = ps"
  using assms by (induction ps) (simp_all add: point_update_used_def)

lemma point_update_used_keeps:
  assumes "q \<in> set ps" and "point_id q \<noteq> pid"
  shows "q \<in> set (point_update_used pid uid ps)"
  using assms by (induction ps) (auto simp: point_update_used_def)

lemma live_sum_point_update_used:
  assumes "distinct (map point_id ps)" and "p \<in> set ps" and "live_point env uid p"
  shows "sum_list (map point_amount (filter (live_point env uid)
            (point_update_used (point_id p) uid' ps)))
         = sum_list (map point_amount (filter (live_point env uid) ps)) - point_amount p"
  using assms
proof (induction ps)
  case Nil
  then show ?case by simp
next
  case (Cons a ps)
  show ?case
  proof (cases "a = p")
    case True
    with Cons.prems(1) have "\<forall>q\<in>set ps. point_id q \<noteq> point_id p"
      using distinct_map_Cons_neq [of point_id p ps] by blast
    then have "point_update_used (point_id p) uid' ps = ps"
      by (rule point_update_used_other)
    then have "point_update_used (point_id p) uid' (a # ps)
                 = a\<lparr>point_isUsed := True, point_usedById := Some uid'\<rparr> # ps"
      using True by (simp add: point_update_used_def)
    with True Cons.prems(3) show ?thesis
      by (simp add: live_point_def)
  next
    case False
    with Cons.prems(2) have mem: "p \<in> set ps" by simp
    with Cons.prems(1) have "point_id a \<noteq> point_id p"
      using distinct_map_Cons_neq [of point_id a ps p] by metis
    then have "point_update_used (point_id p) uid' (a # ps)
                 = a # point_update_used (point_id p) uid' ps"
      by (simp add: point_update_used_def)
    moreover from Cons.IH mem Cons.prems(1,3)
    have "sum_list (map point_amount (filter (live_point env uid)
            (point_update_used (point_id p) uid' ps)))
         = sum_list (map point_amount (filter (live_point env uid) ps)) - point_amount p"
      by simp
    ultimately show ?thesis by simp
  qed
qed

lemma mark_points_ledger:
  assumes "mark_points uid' ups remaining ps = (ps', remaining')"
    and "distinct (map point_id ps)" and "distinct (map point_id ups)"
    and "set ups \<subseteq> set ps" and "\<forall>q\<in>set ups. live_point env uid q"
    and "0 \<le> remaining"
  shows "sum_list (map point_amount (filter (live_point env uid) ps'))
           = sum_list (map point_amount (filter (live_point env uid) ps)) - (remaining - remaining')
         \<and> 0 \<le> remaining'"
  using assms
proof (induction ups arbitrary: remaining ps)
  case Nil
  then show ?case by simp
next
  case (Cons p rest)
  show ?case
  proof (cases "remaining \<le> 0")
    case True
    with Cons.prems(1,6) show ?thesis by simp
  next
    case pos: False
    show ?thesis
    proof (cases "point_amount p \<le> remaining")
      case True
      let ?ps1 = "point_update_used (point_id p) uid' ps"
      from pos True Cons.prems(1)
      have run: "mark_points uid' rest (remaining - point_amount p) ?ps1 = (ps', remaining')"
        by simp
      from Cons.prems(2) have d1: "distinct (map point_id ?ps1)" by simp
      from Cons.prems(3) have d2: "distinct (map point_id rest)" by simp
      have sub: "set rest \<subseteq> set ?ps1"
      proof
        fix q assume q: "q \<in> set rest"
        with Cons.prems(3) have "point_id q \<noteq> point_id p"
          by (rule distinct_map_Cons_neq)
        moreover from q Cons.prems(4) have "q \<in> set ps" by auto
        ultimately show "q \<in> set ?ps1" by (simp add: point_update_used_keeps)
      qed
      from Cons.prems(5) have lv: "\<forall>q\<in>set rest. live_point env uid q" by simp
      from True have nn: "0 \<le> remaining - point_amount p" by simp
      from Cons.IH [OF run d1 d2 sub lv nn]
      have ih: "sum_list (map point_amount (filter (live_point env uid) ps'))
           = sum_list (map point_amount (filter (live_point env uid) ?ps1))
             - (remaining - point_amount p - remaining')"
        and r: "0 \<le> remaining'" by simp_all
      from Cons.prems(4,5) have "p \<in> set ps" "live_point env uid p" by simp_all
      with Cons.prems(2)
      have "sum_list (map point_amount (filter (live_point env uid) ?ps1))
              = sum_list (map point_amount (filter (live_point env uid) ps)) - point_amount p"
        by (simp add: live_sum_point_update_used)
      with ih r show ?thesis by simp
    next
      case False
      with pos Cons.prems(1)
      have run: "mark_points uid' rest remaining ps = (ps', remaining')"
        by simp
      from Cons.prems have "distinct (map point_id rest)" "set rest \<subseteq> set ps"
        "\<forall>q\<in>set rest. live_point env uid q" by simp_all
      with Cons.IH [OF run Cons.prems(2)] Cons.prems(6) show ?thesis by simp
    qed
  qed
qed

lemma userPoints_of_props:
  assumes "distinct (map point_id ps)"
  shows "distinct (map point_id (userPoints_of env uid ps))"
    "set (userPoints_of env uid ps) \<subseteq> set ps"
    "\<forall>q\<in>set (userPoints_of env uid ps). live_point env uid q"
proof -
  from assms have "distinct (map point_id (filter (live_point env uid) ps))"
    by (rule distinct_map_filter)
  then show "distinct (map point_id (userPoints_of env uid ps))"
    by (simp add: userPoints_of_def distinct_map)
  show "set (userPoints_of env uid ps) \<subseteq> set ps"
    "\<forall>q\<in>set (userPoints_of env uid ps). live_point env uid q"
    by (auto simp: userPoints_of_def)
qed

lemma debit_marks_ledger:
  assumes "distinct (map point_id ps)"
  shows "sum_list (map point_amount (filter (live_point env uid) (debit_marks env uid n ps)))
           \<ge> sum_list (map point_amount (filter (live_point env uid) ps)) - (if 0 < n then n else 0)"
proof (cases "0 < n")
  case True
  obtain ps' r' where run: "mark_points uid (userPoints_of env uid ps) n ps = (ps', r')"
    by (cases "mark_points uid (userPoints_of env uid ps) n ps")
  from True have "0 \<le> n" by simp
  from mark_points_ledger [OF run assms userPoints_of_props [OF assms] this]
  have "sum_list (map point_amount (filter (live_point env uid) ps'))
           = sum_list (map point_amount (filter (live_point env uid) ps)) - (n - r')"
    and "0 \<le> r'" by simp_all
  with True run show ?thesis by (simp add: debit_marks_def)
next
  case False
  then show ?thesis by (simp add: debit_marks_def)
qed

lemma find_user_update:
  "find (\<lambda>u. user_id u = uid)
     (map (\<lambda>u. if user_id u = uid then u\<lparr>user_pointsBalance := user_pointsBalance u + n\<rparr> else u) us)
   = map_option (\<lambda>u. u\<lparr>user_pointsBalance := user_pointsBalance u + n\<rparr>)
       (find (\<lambda>u. user_id u = uid) us)"
  by (induction us) simp_all

lemma mark_points_consumed:
  "mark_points uid ups remaining ps =
     (foldl (\<lambda>ps g. point_update_used (point_id g) uid ps) ps (grants_consumed remaining ups),
      remaining - sum_list (map point_amount (grants_consumed remaining ups)))"
  by (induction ups arbitrary: remaining ps) simp_all

lemma foldl_point_update_used:
  "foldl (\<lambda>ps g. point_update_used (point_id g) uid ps) ps gs =
     map (\<lambda>p. if point_id p \<in> point_id ` set gs
               then p\<lparr>point_isUsed := True, point_usedById := Some uid\<rparr> else p) ps"
proof (induction gs arbitrary: ps)
  case Nil
  show ?case by simp
next
  case (Cons g gs)
  show ?case
    unfolding foldl_Cons Cons.IH
    by (auto simp: point_update_used_def)
qed

lemma grants_consumed_nonpos:
  assumes "need \<le> 0"
  shows "grants_consumed need gs = []"
  using assms by (cases gs) simp_all

text \<open>
  Claim C6, as stated, fails. The user has live grants of 60, 5000 and 30 points and a
  balance of 5090, their sum. A booking that redeems 100 points (and earns none) is
  committed: it takes 100 off the balance and marks the grants of 60 and 30, 90 points in
  all, since the grant of 5000 does not fit. Afterwards the balance is 4990 and the live
  grants sum to 5000.
\<close>

theorem debit_breaks_cache_invariant:
  "bookTickets ex_env ''U'' ex_request_100 ex_store_ledger
     = (Inr ex_transaction_100, ex_store_ledger_booked)
   \<and> user_findUnique ''U'' ex_store_ledger = Some \<lparr>user_id = ''U'', user_pointsBalance = 5090\<rparr>
   \<and> live_points_sum ex_env ''U'' ex_store_ledger = 5090
   \<and> users (deduct_points ex_env ''U'' 100 ex_store_ledger) = users ex_store_ledger_booked
   \<and> points (deduct_points ex_env ''U'' 100 ex_store_ledger) = points ex_store_ledger_booked
   \<and> user_findUnique ''U'' ex_store_ledger_booked
       = Some \<lparr>user_id = ''U'', user_pointsBalance = 4990\<rparr>
   \<and> live_points_sum ex_env ''U'' ex_store_ledger_booked = 5000"
  by (simp add: booking_defs example_defs live_points_sum_def)

text \<open>
  Claim C6, amended. From a store where the grant identifiers are distinct and the
  user's balance equals the sum of the user's live grants, the debit step for \<open>n\<close> points
  takes exactly \<open>n\<close> (nothing when \<open>n \<le> 0\<close>) off the balance and marks used exactly the
  grants consumed by going through the user's live grants oldest first (in ascending
  order of \<open>createdAt\<close>) and taking each whole grant that fits into what is left to cover. Those grants total at most what is
  taken off the balance, and the sum of the live grants goes down by their total: the
  balance afterwards is at most the sum of the live grants, and equal to it exactly when
  the grants consumed add up to what was taken off the balance.
\<close>

theorem debit_consumes_whole_grants_oldest_first:
  assumes "distinct (map point_id (points s))"
    and "user_findUnique uid s = Some u"
    and "user_pointsBalance u = live_points_sum env uid s"
  shows "let live = userPoints_of env uid (points s);
             taken = grants_consumed n live;
             debited = max 0 n;
             s' = deduct_points env uid n s
         in set live = {p \<in> set (points s). live_point env uid p}
            \<and> sorted (map point_createdAt live)
            \<and> user_findUnique uid s'
              = Some (u\<lparr>user_pointsBalance := user_pointsBalance u - debited\<rparr>)
            \<and> points s'
                = map (\<lambda>p. if point_id p \<in> point_id ` set taken
                          then p\<lparr>point_isUsed := True, point_usedById := Some uid\<rparr>
                          else p) (points s)
            \<and> sum_list (map point_amount taken) \<le> debited
            \<and> live_points_sum env uid s'
                = live_points_sum env uid s - sum_list (map point_amount taken)
            \<and> user_pointsBalance u - debited \<le> live_points_sum env uid s'
            \<and> ((user_pointsBalance u - debited = live_points_sum env uid s')
                 = (sum_list (map point_amount taken) = debited))"
proof (cases "0 < n")
  case True
  let ?ups = "userPoints_of env uid (points s)"
  let ?taken = "grants_consumed n ?ups"
  have order: "set ?ups = {p \<in> set (points s). live_point env uid p}"
    "sorted (map point_createdAt ?ups)"
    by (auto simp: userPoints_of_def)
  let ?s' = "deduct_points env uid n s"
  have run: "mark_points uid ?ups n (points s)
               = (foldl (\<lambda>ps g. point_update_used (point_id g) uid ps) (points s) ?taken,
                  n - sum_list (map point_amount ?taken))"
    by (rule mark_points_consumed)
  have pts: "points ?s' = map (\<lambda>p. if point_id p \<in> point_id ` set ?taken
                          then p\<lparr>point_isUsed := True, point_usedById := Some uid\<rparr>
                          else p) (points s)"
    using True
    by (simp add: deduct_points_points debit_marks_def run foldl_point_update_used)
  from True have "0 \<le> n" by simp
  from mark_points_ledger [OF run assms(1) userPoints_of_props [OF assms(1)] this]
  have led: "sum_list (map point_amount (filter (live_point env uid)
               (foldl (\<lambda>ps g. point_update_used (point_id g) uid ps) (points s) ?taken)))
             = sum_list (map point_amount (filter (live_point env uid) (points s)))
               - (n - (n - sum_list (map point_amount ?taken)))"
    and le: "0 \<le> n - sum_list (map point_amount ?taken)"
    by simp_all
  have live: "live_points_sum env uid ?s'
                = live_points_sum env uid s - sum_list (map point_amount ?taken)"
    using led True
    by (simp add: live_points_sum_def deduct_points_points debit_marks_def run)
  from assms(2) True
  have usr: "user_findUnique uid ?s' = Some (u\<lparr>user_pointsBalance := user_pointsBalance u - n\<rparr>)"
    by (simp add: user_findUnique_def deduct_points_users user_update_pointsBalance_def
          find_user_update)
  from True have m: "max 0 n = n" by simp
  show ?thesis
    unfolding Let_def m using order usr pts le live assms(3)
    by (intro conjI) auto
next
  case False
  then have same: "deduct_points env uid n s = s"
    by (simp add: deduct_points_def)
  from False have none: "grants_consumed n (userPoints_of env uid (points s)) = []"
    by (intro grants_consumed_nonpos) simp
  from False have m: "max 0 n = 0" by simp
  have order: "set (userPoints_of env uid (points s)) = {p \<in> set (points s). live_point env uid p}"
    "sorted (map point_createdAt (userPoints_of env uid (points s)))"
    by (auto simp: userPoints_of_def)
  show ?thesis
    unfolding Let_def m none same using order assms(2,3)
    by (simp add: map_idI)
qed

theorem debit_consumes_whole_grants_oldest_first_witness:
  "distinct (map point_id (points ex_store_ledger))
   \<and> user_findUnique ''U'' ex_store_ledger = Some \<lparr>user_id = ''U'', user_pointsBalance = 5090\<rparr>
   \<and> user_pointsBalance \<lparr>user_id = ''U'', user_pointsBalance = 5090\<rparr>
       = live_points_sum ex_env ''U'' ex_store_ledger
   \<and> grants_consumed 100 (userPoints_of ex_env ''U'' (points ex_store_ledger))
       = [ex_grant_60, ex_grant_30]
   \<and> user_findUnique ''U'' (deduct_points ex_env ''U'' 100 ex_store_ledger)
       = Some \<lparr>user_id = ''U'', user_pointsBalance = 4990\<rparr>
   \<and> points (deduct_points ex_env ''U'' 100 ex_store_ledger)
       = [ex_grant_60\<lparr>point_isUsed := True, point_usedById := Some ''U''\<rparr>, ex_grant_5000,
          ex_grant_30\<lparr>point_isUsed := True, point_usedById := Some ''U''\<rparr>]
   \<and> sum_list (map point_amount [ex_grant_60, ex_grant_30]) = 90
   \<and> live_points_sum ex_env ''U'' (deduct_points ex_env ''U'' 100 ex_store_ledger) = 5090 - 90"
proof -
  have d: "distinct (map point_id (points ex_store_ledger))"
    by (simp add: example_defs)
  have f: "user_findUnique ''U'' ex_store_ledger
             = Some \<lparr>user_id = ''U'', user_pointsBalance = 5090\<rparr>"
    by (simp add: user_findUnique_def example_defs)
  have i: "user_pointsBalance \<lparr>user_id = ''U'', user_pointsBalance = 5090\<rparr>
       = live_points_sum ex_env ''U'' ex_store_ledger"
    by (simp add: live_points_sum_def live_point_def example_defs)
  have t: "grants_consumed 100 (userPoints_of ex_env ''U'' (points ex_store_ledger))
       = [ex_grant_60, ex_grant_30]"
    by (simp add: userPoints_of_def live_point_def example_defs)
  have a: "sum_list (map point_amount [ex_grant_60, ex_grant_30]) = 90"
    by (simp add: example_defs)
  have l: "live_points_sum ex_env ''U'' ex_store_ledger = 5090"
    using i by simp
  have p: "map (\<lambda>p. if point_id p \<in> point_id ` set [ex_grant_60, ex_grant_30]
                     then p\<lparr>point_isUsed := True, point_usedById := Some ''U''\<rparr> else p)
             (points ex_store_ledger)
           = [ex_grant_60\<lparr>point_isUsed := True, point_usedById := Some ''U''\<rparr>, ex_grant_5000,
              ex_grant_30\<lparr>point_isUsed := True, point_usedById := Some ''U''\<rparr>]"
    by (simp add: example_defs)
  from debit_consumes_whole_grants_oldest_first [OF d f i, of 100]
  show ?thesis
    unfolding Let_def t a l p using d f i t a by simp
qed

subsection \<open>Points earned\<close>

lemma award_points_points_users:
  "points (prisma (award_points env uid fa nm c)) =
     (if 0 < calculatePoints fa
      then points (prisma c) @
           [\<lparr>point_id = uuid_point env, point_earnedById = Some uid,
             point_usedById = None, point_amount = calculatePoints fa,
             point_description = ''Purchase points for '' @ nm,
             point_expiresAt = addMonths env 3 (now env),
             point_isUsed = False, point_createdAt = now env\<rparr>]
      else points (prisma c))"
  "users (prisma (award_points env uid fa nm c)) =
     (if 0 < calculatePoints fa
      then map (\<lambda>u. if user_id u = uid
                     then u\<lparr>user_pointsBalance := user_pointsBalance u + calculatePoints fa\<rparr>
                     else u) (users (prisma c))
      else users (prisma c))"
  by (simp_all add: award_points_prisma user_update_pointsBalance_def point_create_def
        calculatePoints_def)

lemma settle_writes_points_users:
  "points (settle_writes env uid v pr s) = points (deduct_points env uid (pr_pointsToUse pr) s)"
  "users (settle_writes env uid v pr s) = users (deduct_points env uid (pr_pointsToUse pr) s)"
  by (simp_all add: settle_writes_tables deduct_points_points deduct_points_users)

text \<open>
  Claim C7. After a successful booking the points earned are \<open>finalAmount div 1000\<close>,
  rounded down. When that is positive, the points table is the table after the debit
  followed by one new unused grant of that amount, earned by the user and expiring three
  months after the clock reading, and the user's balance after the debit is incremented
  by the same amount; otherwise no grant is created and no balance changes.
\<close>

theorem purchase_points_credited:
  assumes "bookTickets env uid req s = (Inr txn, s')"
  shows "let earned = calculatePoints (tx_finalAmount txn);
             mid = deduct_points env uid (tx_pointsUsed txn) s
         in earned = tx_finalAmount txn div 1000 \<and>
            (if 0 < earned
             then (\<exists>description.
                     points s' = points mid @
                       [\<lparr>point_id = uuid_point env, point_earnedById = Some uid,
                         point_usedById = None, point_amount = earned,
                         point_description = description,
                         point_expiresAt = addMonths env 3 (now env),
                         point_isUsed = False, point_createdAt = now env\<rparr>])
                  \<and> users s' = map (\<lambda>u. if user_id u = uid
                                    then u\<lparr>user_pointsBalance := user_pointsBalance u + earned\<rparr>
                                    else u) (users mid)
             else points s' = points mid \<and> users s' = users mid)"
  using assms
proof (cases rule: bookTickets_cases)
  case (committed v pr)
  from committed(4) have txn: "tx_finalAmount txn = pr_finalAmount pr"
    "tx_pointsUsed txn = pr_pointsToUse pr"
    by (simp_all add: new_transaction_def)
  show ?thesis
    unfolding Let_def txn committed(5)
    by (simp add: award_points_points_users settle_writes_points_users calculatePoints_def)
qed simp_all

theorem purchase_points_credited_witness:
  "bookTickets ex_env ''U'' ex_request_plain ex_store_coupons
     = (Inr ex_transaction_coupon, ex_store_coupons_booked)
   \<and> calculatePoints (tx_finalAmount ex_transaction_coupon) = 5
   \<and> points ex_store_coupons_booked
       = points (deduct_points ex_env ''U'' 0 ex_store_coupons) @
           [\<lparr>point_id = ''P'', point_earnedById = Some ''U'', point_usedById = None,
             point_amount = 5, point_description = ''Purchase points for Gig'',
             point_expiresAt = addMonths ex_env 3 (now ex_env), point_isUsed = False,
             point_createdAt = 100\<rparr>]
   \<and> users (deduct_points ex_env ''U'' 0 ex_store_coupons)
       = [\<lparr>user_id = ''U'', user_pointsBalance = 5000\<rparr>]
   \<and> users ex_store_coupons_booked = [\<lparr>user_id = ''U'', user_pointsBalance = 5005\<rparr>]"
  using purchase_points_credited [OF ex_booking_coupons] ex_booking_coupons
  by (simp add: booking_defs example_defs)

subsection \<open>Coupons\<close>

lemma award_points_frame [simp]:
  "events (prisma (award_points env uid fa nm c)) = events (prisma c)"
  "tickets (prisma (award_points env uid fa nm c)) = tickets (prisma c)"
  "discountCoupons (prisma (award_points env uid fa nm c)) = discountCoupons (prisma c)"
  "transactionItems (prisma (award_points env uid fa nm c)) = transactionItems (prisma c)"
  "transactionCoupons (prisma (award_points env uid fa nm c)) = transactionCoupons (prisma c)"
  "events (db (award_points env uid fa nm c)) = events (db c)"
  "tickets (db (award_points env uid fa nm c)) = tickets (db c)"
  "discountCoupons (db (award_points env uid fa nm c)) = discountCoupons (db c)"
  "transactionItems (db (award_points env uid fa nm c)) = transactionItems (db c)"
  "transactionCoupons (db (award_points env uid fa nm c)) = transactionCoupons (db c)"
  by (simp_all add: award_points_prisma award_points_db user_update_pointsBalance_def
        point_create_def)

lemma available_coupon_None:
  "available_coupon env uid (discountCoupons s) = None \<longleftrightarrow> usable_coupons env uid s = []"
  by (simp add: available_coupon_def usable_coupons_def findFirst_desc_None)

lemma available_coupon_Some:
  assumes "available_coupon env uid (discountCoupons s) = Some c"
  shows "c \<in> set (usable_coupons env uid s)"
    "\<forall>c'\<in>set (usable_coupons env uid s). coupon_discountPercent c' \<le> coupon_discountPercent c"
  using findFirst_desc_Some [OF assms [unfolded available_coupon_def]]
  by (auto simp: usable_coupons_def)

text \<open>
  Claim C9, amended. When a booked request carries no coupon code (or the empty string),
  and the user has usable coupons, the coupon applied is one of them with the highest
  percentage: it alone is marked used and linked to the transaction. Which of several
  coupons with that percentage is taken is not decided by \<open>createdAt\<close>. When the user has
  no usable coupon, the discount is zero and no coupon row and no link is written.
\<close>

theorem auto_coupon_highest_percent:
  assumes "bookTickets env uid req s = (Inr txn, s')"
    and "req_couponCode req = None \<or> req_couponCode req = Some []"
  shows "if usable_coupons env uid s = []
         then tx_discountAmount txn = 0 \<and> discountCoupons s' = discountCoupons s
              \<and> transactionCoupons s' = transactionCoupons s
         else (\<exists>c\<in>set (usable_coupons env uid s).
                 (\<forall>c'\<in>set (usable_coupons env uid s).
                     coupon_discountPercent c' \<le> coupon_discountPercent c)
                 \<and> tx_discountAmount txn = (tx_totalAmount txn * coupon_discountPercent c) div 100
                 \<and> discountCoupons s'
                     = map (\<lambda>x. if coupon_id x = coupon_id c then x\<lparr>coupon_isUsed := True\<rparr> else x)
                         (discountCoupons s)
                 \<and> transactionCoupons s'
                     = transactionCoupons s @
                         [\<lparr>tc_transactionId = tx_id txn, tc_discountCouponId = coupon_id c\<rparr>])"
  using assms(1)
proof (cases rule: bookTickets_cases)
  case (committed v pr)
  from committed(4) have txn: "txn = new_transaction env uid v pr" by simp
  from committed(1) assms(2) have cc: "v_couponCode v = None \<or> v_couponCode v = Some []"
    by (simp add: parse_Inr)
  from committed(2) have cpn:
    "apply_coupon env uid (v_couponCode v) (pr_totalAmount pr) (discountCoupons s)
       = (pr_discountAmount pr, pr_usedCoupons pr)"
    by (rule price_Inr)
  have tables: "discountCoupons s' = discountCoupons (mark_coupons (uuid_transaction env) (pr_usedCoupons pr) s)"
    "transactionCoupons s' = transactionCoupons (mark_coupons (uuid_transaction env) (pr_usedCoupons pr) s)"
    using committed(5) by (simp_all add: settle_writes_tables)
  show ?thesis
  proof (cases "available_coupon env uid (discountCoupons s)")
    case None
    with cc cpn have "pr_discountAmount pr = 0" "pr_usedCoupons pr = []"
      by (auto simp: apply_coupon_def)
    moreover from None have "usable_coupons env uid s = []"
      by (simp add: available_coupon_None)
    ultimately show ?thesis
      using tables txn by (simp add: new_transaction_def)
  next
    case (Some c)
    with cc cpn have d: "pr_discountAmount pr = (pr_totalAmount pr * coupon_discountPercent c) div 100"
      and u: "pr_usedCoupons pr = [coupon_id c]"
      by (auto simp: apply_coupon_def)
    from available_coupon_Some [OF Some] have c: "c \<in> set (usable_coupons env uid s)"
      and mx: "\<forall>c'\<in>set (usable_coupons env uid s). coupon_discountPercent c' \<le> coupon_discountPercent c"
      by simp_all
    from c have ne: "usable_coupons env uid s \<noteq> []" by auto
    have "tx_discountAmount txn = (tx_totalAmount txn * coupon_discountPercent c) div 100"
      using d txn by (simp add: new_transaction_def)
    moreover have "discountCoupons s'
                     = map (\<lambda>x. if coupon_id x = coupon_id c then x\<lparr>coupon_isUsed := True\<rparr> else x)
                         (discountCoupons s)"
      using tables(1) u by (simp add: discountCoupon_update_used_def transactionCoupon_create_def)
    moreover have "transactionCoupons s'
                     = transactionCoupons s @
                         [\<lparr>tc_transactionId = tx_id txn, tc_discountCouponId = coupon_id c\<rparr>]"
      using tables(2) u txn
      by (simp add: discountCoupon_update_used_def transactionCoupon_create_def new_transaction_def)
    ultimately show ?thesis
      using ne c mx by auto
  qed
qed simp_all

theorem auto_coupon_highest_percent_witness:
  "bookTickets ex_env ''U'' ex_request_plain ex_store_coupons
     = (Inr ex_transaction_coupon, ex_store_coupons_booked)
   \<and> req_couponCode ex_request_plain = None
   \<and> usable_coupons ex_env ''U'' ex_store_coupons = [ex_coupon_new, ex_coupon_old]
   \<and> (\<exists>c\<in>set (usable_coupons ex_env ''U'' ex_store_coupons).
                 (\<forall>c'\<in>set (usable_coupons ex_env ''U'' ex_store_coupons).
                     coupon_discountPercent c' \<le> coupon_discountPercent c)
                 \<and> tx_discountAmount ex_transaction_coupon
                     = (tx_totalAmount ex_transaction_coupon * coupon_discountPercent c) div 100
                 \<and> discountCoupons ex_store_coupons_booked
                     = map (\<lambda>x. if coupon_id x = coupon_id c then x\<lparr>coupon_isUsed := True\<rparr> else x)
                         (discountCoupons ex_store_coupons)
                 \<and> transactionCoupons ex_store_coupons_booked
                     = transactionCoupons ex_store_coupons @
                         [\<lparr>tc_transactionId = tx_id ex_transaction_coupon,
                           tc_discountCouponId = coupon_id c\<rparr>])"
proof -
  have n: "req_couponCode ex_request_plain = None \<or> req_couponCode ex_request_plain = Some []"
    by (simp add: example_defs)
  have u: "usable_coupons ex_env ''U'' ex_store_coupons = [ex_coupon_new, ex_coupon_old]"
    by (simp add: usable_coupons_def example_defs)
  then have ne: "usable_coupons ex_env ''U'' ex_store_coupons \<noteq> []" by simp
  have r: "req_couponCode ex_request_plain = None"
    by (simp add: example_defs)
  from auto_coupon_highest_percent [OF ex_booking_coupons n] ne
  have "\<exists>c\<in>set (usable_coupons ex_env ''U'' ex_store_coupons).
                 (\<forall>c'\<in>set (usable_coupons ex_env ''U'' ex_store_coupons).
                     coupon_discountPercent c' \<le> coupon_discountPercent c)
                 \<and> tx_discountAmount ex_transaction_coupon
                     = (tx_totalAmount ex_transaction_coupon * coupon_discountPercent c) div 100
                 \<and> discountCoupons ex_store_coupons_booked
                     = map (\<lambda>x. if coupon_id x = coupon_id c then x\<lparr>coupon_isUsed := True\<rparr> else x)
                         (discountCoupons ex_store_coupons)
                 \<and> transactionCoupons ex_store_coupons_booked
                     = transactionCoupons ex_store_coupons @
                         [\<lparr>tc_transactionId = tx_id ex_transaction_coupon,
                           tc_discountCouponId = coupon_id c\<rparr>]"
    by (simp only: if_False)
  with ex_booking_coupons r u show ?thesis by (intro conjI)
qed

text \<open>
  Claim C9, as stated, fails. Two usable coupons of the user have the same percentage;
  the query orders by \<open>discountPercent\<close> only, and the coupon the database lists first is
  taken although it was created later than the other.
\<close>

theorem auto_coupon_takes_newer_on_tie:
  "bookTickets ex_env ''U'' ex_request_plain ex_store_coupons
     = (Inr ex_transaction_coupon, ex_store_coupons_booked)
   \<and> req_couponCode ex_request_plain = None
   \<and> usable_coupons ex_env ''U'' ex_store_coupons = [ex_coupon_new, ex_coupon_old]
   \<and> coupon_discountPercent ex_coupon_new = coupon_discountPercent ex_coupon_old
   \<and> coupon_createdAt ex_coupon_old < coupon_createdAt ex_coupon_new
   \<and> discountCoupons ex_store_coupons_booked
       = [ex_coupon_new\<lparr>coupon_isUsed := True\<rparr>, ex_coupon_old]
   \<and> transactionCoupons ex_store_coupons_booked
       = [\<lparr>tc_transactionId = ''T'', tc_discountCouponId = coupon_id ex_coupon_new\<rparr>]"
  using ex_booking_coupons
  by (simp add: usable_coupons_def example_defs)

lemma fst_bookTickets:
  "fst (bookTickets env uid req s) =
     (case transactionSchema_parse req of
        Inl e \<Rightarrow> Inl e
      | Inr v \<Rightarrow>
          (case price env uid v s of
             Inl e \<Rightarrow> Inl e
           | Inr pr \<Rightarrow>
               if commits env
                  \<and> \<not> (0 < pr_pointsToUse pr \<and> 0 < calculatePoints (pr_finalAmount pr))
               then Inr (new_transaction env uid v pr)
               else Inl TransactionAborted))"
proof -
  obtain r s' where run: "bookTickets env uid req s = (r, s')"
    by (cases "bookTickets env uid req s")
  from run have "r = (case transactionSchema_parse req of
        Inl e \<Rightarrow> Inl e
      | Inr v \<Rightarrow>
          (case price env uid v s of
             Inl e \<Rightarrow> Inl e
           | Inr pr \<Rightarrow>
               if commits env
                  \<and> \<not> (0 < pr_pointsToUse pr \<and> 0 < calculatePoints (pr_finalAmount pr))
               then Inr (new_transaction env uid v pr)
               else Inl TransactionAborted))"
  proof (cases rule: bookTickets_cases)
    case (aborted v pr)
    then show ?thesis by auto
  qed simp_all
  with run show ?thesis by simp
qed

lemma apply_coupon_no_coupons:
  "apply_coupon env uid None amt [] = (0, [])"
  by (simp add: apply_coupon_def available_coupon_def findFirst_desc_def)

lemma price_without_coupon:
  assumes "\<And>amt. apply_coupon env uid (v_couponCode v) amt (discountCoupons s) = (0, [])"
  shows "price env uid (v\<lparr>v_couponCode := None\<rparr>) (s\<lparr>discountCoupons := []\<rparr>) = price env uid v s"
  by (simp add: price_def event_findUnique_def user_findUnique_def assms apply_coupon_no_coupons
        cong: option.case_cong sum.case_cong if_cong)

lemma explicit_coupon_unusable:
  assumes "code \<noteq> []"
    and "\<forall>c\<in>set (discountCoupons s).
           coupon_code c = code \<longrightarrow> coupon_isUsed c \<or> coupon_expiresAt c < now env"
  shows "apply_coupon env uid (Some code) amt (discountCoupons s) = (0, [])"
proof -
  from assms(2) have "explicit_coupon env code (discountCoupons s) = None"
    by (auto simp: explicit_coupon_def find_None_iff)
  with assms(1) show ?thesis
    by (simp add: apply_coupon_def)
qed

text \<open>
  Claim C1, amended. When the request carries a coupon code and every coupon with that
  code is used or expired (or there is none), the call does not fail on that account: its
  outcome, an error or the transaction returned, is the outcome of the same request
  without a code on a store without coupons; a transaction it returns has a discount of
  zero, and no coupon row and no link is written.
\<close>

theorem unusable_coupon_code_books_without_discount:
  assumes "req_couponCode req = Some code" and "code \<noteq> []"
    and "\<forall>c\<in>set (discountCoupons s).
           coupon_code c = code \<longrightarrow> coupon_isUsed c \<or> coupon_expiresAt c < now env"
  shows "fst (bookTickets env uid req s)
           = fst (bookTickets env uid (req\<lparr>req_couponCode := None\<rparr>) (s\<lparr>discountCoupons := []\<rparr>))
         \<and> (\<forall>txn. fst (bookTickets env uid req s) = Inr txn \<longrightarrow> tx_discountAmount txn = 0)
         \<and> discountCoupons (snd (bookTickets env uid req s)) = discountCoupons s
         \<and> transactionCoupons (snd (bookTickets env uid req s)) = transactionCoupons s"
proof -
  have dead: "apply_coupon env uid (Some code) amt (discountCoupons s) = (0, [])" for amt
    using assms(2,3) by (rule explicit_coupon_unusable)
  obtain r s' where run: "bookTickets env uid req s = (r, s')"
    by (cases "bookTickets env uid req s")
  have same: "fst (bookTickets env uid req s)
           = fst (bookTickets env uid (req\<lparr>req_couponCode := None\<rparr>) (s\<lparr>discountCoupons := []\<rparr>))"
  proof (cases "transactionSchema_parse req")
    case (Inl e)
    then have "transactionSchema_parse (req\<lparr>req_couponCode := None\<rparr>) = Inl e"
      by (auto simp: transactionSchema_parse_def split: if_splits)
    with Inl show ?thesis by (simp add: fst_bookTickets)
  next
    case (Inr v)
    then have p': "transactionSchema_parse (req\<lparr>req_couponCode := None\<rparr>)
                 = Inr (v\<lparr>v_couponCode := None\<rparr>)"
      by (auto simp: transactionSchema_parse_def split: if_splits)
    from Inr assms(1) have "v_couponCode v = Some code"
      by (simp add: parse_Inr)
    with dead have peq:
      "price env uid (v\<lparr>v_couponCode := None\<rparr>) (s\<lparr>discountCoupons := []\<rparr>)
         = price env uid v s"
      by (intro price_without_coupon) simp
    show ?thesis
    proof (cases "price env uid v s")
      case failed: (Inl e)
      with Inr p' peq show ?thesis
        by (simp add: fst_bookTickets)
    next
      case priced: (Inr pr)
      have "new_transaction env uid (v\<lparr>v_couponCode := None\<rparr>) pr
              = new_transaction env uid v pr"
        by (simp add: new_transaction_def)
      with Inr p' peq priced show ?thesis
        by (simp add: fst_bookTickets)
    qed
  qed
  from run have rest: "(\<forall>txn. r = Inr txn \<longrightarrow> tx_discountAmount txn = 0)
      \<and> discountCoupons s' = discountCoupons s \<and> transactionCoupons s' = transactionCoupons s"
  proof (cases rule: bookTickets_cases)
    case (committed v pr)
    from committed(1) assms(1) have cc: "v_couponCode v = Some code"
      by (simp add: parse_Inr)
    from committed(2) have
      "apply_coupon env uid (v_couponCode v) (pr_totalAmount pr) (discountCoupons s)
         = (pr_discountAmount pr, pr_usedCoupons pr)"
      by (rule price_Inr)
    with cc dead have "pr_discountAmount pr = 0" "pr_usedCoupons pr = []"
      by simp_all
    with committed(4,5) show ?thesis
      by (simp add: settle_writes_tables new_transaction_def)
  qed simp_all
  with run same show ?thesis by simp
qed

theorem unusable_coupon_code_books_without_discount_witness:
  "req_couponCode ex_request_nope = Some ''NOPE'' \<and> ''NOPE'' \<noteq> []
   \<and> list_all (\<lambda>c. coupon_code c \<noteq> ''NOPE'') (discountCoupons ex_store_coupons)
   \<and> fst (bookTickets ex_env ''U'' ex_request_nope ex_store_coupons) = Inr ex_transaction_full
   \<and> fst (bookTickets ex_env ''U'' ex_request_nope ex_store_coupons)
       = fst (bookTickets ex_env ''U'' (ex_request_nope\<lparr>req_couponCode := None\<rparr>)
                (ex_store_coupons\<lparr>discountCoupons := []\<rparr>))
   \<and> tx_discountAmount ex_transaction_full = 0
   \<and> discountCoupons (snd (bookTickets ex_env ''U'' ex_request_nope ex_store_coupons))
       = discountCoupons ex_store_coupons
   \<and> transactionCoupons (snd (bookTickets ex_env ''U'' ex_request_nope ex_store_coupons))
       = transactionCoupons ex_store_coupons"
proof -
  have c: "req_couponCode ex_request_nope = Some ''NOPE''"
    by (simp add: example_defs)
  have n: "''NOPE'' \<noteq> []" by simp
  have d: "\<forall>c\<in>set (discountCoupons ex_store_coupons).
           coupon_code c = ''NOPE'' \<longrightarrow> coupon_isUsed c \<or> coupon_expiresAt c < now ex_env"
    by (simp add: example_defs)
  have l: "list_all (\<lambda>c. coupon_code c \<noteq> ''NOPE'') (discountCoupons ex_store_coupons)"
    by (simp add: example_defs)
  have f: "fst (bookTickets ex_env ''U'' ex_request_nope ex_store_coupons) = Inr ex_transaction_full"
    by (simp add: booking_defs example_defs)
  from unusable_coupon_code_books_without_discount [OF c n d, of "''U''"] c l f
  show ?thesis by (simp add: ex_transaction_full_def)
qed

text \<open>
  Claim C1, as stated, fails. No coupon carries the code \<open>NOPE\<close>; the request is booked at
  the full price with a discount of zero.
\<close>

theorem unknown_coupon_code_is_booked:
  "req_couponCode ex_request_nope = Some ''NOPE''
   \<and> discountCoupons ex_store = []
   \<and> bookTickets ex_env ''U'' ex_request_nope ex_store
       = (Inr ex_transaction_full, ex_store_full_booked)
   \<and> tx_discountAmount ex_transaction_full = 0"
  by (simp add: booking_defs example_defs)

text \<open>
  The lookup by code does not ask whose coupon it is: a usable coupon of user \<open>V\<close> is
  applied to a booking of user \<open>U\<close> and marked used.
\<close>

lemma explicit_code_of_another_user_is_applied:
  "coupon_userId ex_coupon_foreign = ''V''
   \<and> fst (bookTickets ex_env ''U'' ex_request_foreign ex_store_foreign)
       = Inr ex_transaction_coupon
   \<and> discountCoupons (snd (bookTickets ex_env ''U'' ex_request_foreign ex_store_foreign))
       = [ex_coupon_foreign\<lparr>coupon_isUsed := True\<rparr>]"
  by (simp add: booking_defs example_defs)

subsection \<open>Capacity\<close>

text \<open>
  Claim C4: the code breaks it. Each line item is checked against the \<open>sold\<close> count read
  before the call, so two line items for the same ticket pass one by one: with 8 of 10
  sold, a request for 2 + 2 is booked and leaves \<open>sold = 12\<close> above \<open>quantity = 10\<close>.
\<close>

theorem duplicate_line_items_oversell:
  "list_all (\<lambda>t. 0 \<le> ticket_sold t \<and> ticket_sold t \<le> ticket_quantity t) (tickets ex_store)
   \<and> list_all (\<lambda>e. 0 \<le> event_bookedSeats e \<and> event_bookedSeats e \<le> event_availableSeats e)
         (events ex_store)
   \<and> fst (bookTickets ex_env ''U'' ex_request_twice ex_store) = Inr ex_transaction_twice
   \<and> tickets (snd (bookTickets ex_env ''U'' ex_request_twice ex_store))
       = [ex_ticket\<lparr>ticket_sold := 12\<rparr>]
   \<and> ticket_quantity ex_ticket = 10"
  by (simp add: booking_defs example_defs)

lemma create_items_tickets:
  "tickets (create_items txid zs s) =
     map (\<lambda>t. t\<lparr>ticket_sold := ticket_sold t +
                  sum_list (map li_quantity
                    (filter (\<lambda>i. li_ticketId i = ticket_id t) (map fst zs)))\<rparr>)
       (tickets s)"
proof (induction txid zs s rule: create_items.induct)
  case (1 txid s)
  show ?case by simp
next
  case (2 txid item ticketUpdate rest s)
  show ?case
    unfolding create_items.simps "2.IH"
    by (simp add: ticket_update_sold_def transactionItem_create_def)
qed

lemma validate_items_checked:
  assumes "validate_items tks its tot ups = Inr (tot', ups')"
  shows "length ups' = length ups + length its
         \<and> (\<forall>i\<in>set its. \<exists>t. find (\<lambda>t. ticket_id t = li_ticketId i) tks = Some t
                             \<and> ticket_sold t + li_quantity i \<le> ticket_quantity t)"
  using assms
proof (induction its arbitrary: tot ups)
  case Nil
  then show ?case by simp
next
  case (Cons item rest)
  from Cons.prems obtain ticket where
    f: "find (\<lambda>t. ticket_id t = li_ticketId item) tks = Some ticket"
    and ok: "ticket_sold ticket + li_quantity item \<le> ticket_quantity ticket"
    and rec: "validate_items tks rest (tot + ticket_price ticket * li_quantity item)
               (ups @ [\<lparr>tu_id = ticket_id ticket, tu_quantity = li_quantity item,
                        tu_price = ticket_price ticket\<rparr>]) = Inr (tot', ups')"
    by (auto split: option.splits if_splits)
  from Cons.IH [OF rec] f ok show ?case by auto
qed

lemma find_Some_member:
  assumes "find P xs = Some y"
  shows "y \<in> set xs" "P y"
  using assms by (induction xs) (auto split: if_splits)

lemma find_unique_id:
  assumes "distinct (map f xs)" and "find (\<lambda>x. f x = k) xs = Some y"
    and "x \<in> set xs" and "f x = k"
  shows "x = y"
proof -
  from assms(2) have "y \<in> set xs" "f y = k"
    by (rule find_Some_member)+
  with assms(1,3,4) show ?thesis
    by (metis distinct_map inj_onD)
qed

lemma sum_quantity_single:
  assumes "distinct (map li_ticketId its)"
  shows "filter (\<lambda>i. li_ticketId i = k) its = []
         \<or> (\<exists>i\<in>set its. li_ticketId i = k \<and> filter (\<lambda>i. li_ticketId i = k) its = [i])"
  using assms
proof (induction its)
  case Nil
  then show ?case by simp
next
  case (Cons a its)
  show ?case
  proof (cases "li_ticketId a = k")
    case True
    with Cons.prems have "\<forall>i\<in>set its. li_ticketId i \<noteq> k"
      by (metis distinct_map_Cons_neq)
    then have "filter (\<lambda>i. li_ticketId i = k) its = []"
      by (simp add: filter_empty_conv)
    with True show ?thesis by simp
  next
    case False
    with Cons show ?thesis by auto
  qed
qed

text \<open>
  What the checks do give: when the line items name pairwise different tickets and the
  identifiers of tickets and events are unique, a successful booking leaves every ticket
  with \<open>sold \<le> quantity\<close> and every event with \<open>bookedSeats \<le> availableSeats\<close>.
\<close>

lemma distinct_tickets_no_oversell:
  assumes "bookTickets env uid req s = (Inr txn, s')"
    and "distinct (map li_ticketId (req_items req))"
    and "distinct (map ticket_id (tickets s))"
    and "distinct (map event_id (events s))"
    and "\<forall>t\<in>set (tickets s). ticket_sold t \<le> ticket_quantity t"
    and "\<forall>e\<in>set (events s). event_bookedSeats e \<le> event_availableSeats e"
  shows "(\<forall>t\<in>set (tickets s'). ticket_sold t \<le> ticket_quantity t)
         \<and> (\<forall>e\<in>set (events s'). event_bookedSeats e \<le> event_availableSeats e)"
  using assms(1)
proof (cases rule: bookTickets_cases)
  case (committed v pr)
  from committed(1) have items: "v_items v = req_items req" and eid: "v_eventId v = req_eventId req"
    by (simp_all add: parse_Inr)
  from committed(2) obtain event :: Event where
    ev: "event_findUnique (v_eventId v) s = Some event"
    and val: "validate_items (filter (\<lambda>t. ticket_eventId t = event_id event) (tickets s))
                (v_items v) 0 [] = Inr (pr_totalAmount pr, pr_ticketUpdates pr)"
    and seats: "event_bookedSeats event + totalTickets_of (v_items v) \<le> event_availableSeats event"
    and tt: "pr_totalTickets pr = totalTickets_of (v_items v)"
    by (rule price_Inr) blast
  let ?tks = "filter (\<lambda>t. ticket_eventId t = event_id event) (tickets s)"
  from validate_items_checked [OF val]
  have len: "length (pr_ticketUpdates pr) = length (v_items v)"
    and chk: "\<forall>i\<in>set (v_items v). \<exists>t. find (\<lambda>t. ticket_id t = li_ticketId i) ?tks = Some t
                             \<and> ticket_sold t + li_quantity i \<le> ticket_quantity t"
    by simp_all
  from len have fst_zip: "map fst (zip (v_items v) (pr_ticketUpdates pr)) = v_items v"
    by simp
  have tk: "tickets s' =
     map (\<lambda>t. t\<lparr>ticket_sold := ticket_sold t +
                  sum_list (map li_quantity
                    (filter (\<lambda>i. li_ticketId i = ticket_id t) (v_items v)))\<rparr>)
       (tickets s)"
    using committed(5)
    by (simp add: settle_writes_def Let_def create_items_tickets fst_zip transaction_create_def
          event_update_bookedSeats_def)
  have dtk: "distinct (map ticket_id ?tks)"
    using assms(3) by (rule distinct_map_filter)
  have tickets_ok: "\<forall>t\<in>set (tickets s'). ticket_sold t \<le> ticket_quantity t"
  proof
    fix t' assume "t' \<in> set (tickets s')"
    with tk obtain t where t: "t \<in> set (tickets s)"
      and t': "t' = t\<lparr>ticket_sold := ticket_sold t +
                  sum_list (map li_quantity
                    (filter (\<lambda>i. li_ticketId i = ticket_id t) (v_items v)))\<rparr>"
      by auto
    from assms(2) items have "distinct (map li_ticketId (v_items v))" by simp
    from sum_quantity_single [OF this, of "ticket_id t"]
    show "ticket_sold t' \<le> ticket_quantity t'"
    proof
      assume "filter (\<lambda>i. li_ticketId i = ticket_id t) (v_items v) = []"
      with t t' assms(5) show ?thesis by simp
    next
      assume "\<exists>i\<in>set (v_items v). li_ticketId i = ticket_id t
                \<and> filter (\<lambda>i. li_ticketId i = ticket_id t) (v_items v) = [i]"
      then obtain i where i: "i \<in> set (v_items v)" "li_ticketId i = ticket_id t"
        and one: "filter (\<lambda>i. li_ticketId i = ticket_id t) (v_items v) = [i]"
        by blast
      from chk i(1) obtain tf where
        f: "find (\<lambda>t. ticket_id t = li_ticketId i) ?tks = Some tf"
        and ok: "ticket_sold tf + li_quantity i \<le> ticket_quantity tf"
        by blast
      from find_Some_member [OF f] have "tf \<in> set (tickets s)" "ticket_id tf = ticket_id t"
        using i(2) by simp_all
      with assms(3) t have "tf = t"
        by (metis distinct_map inj_onD)
      with ok one t' show ?thesis by simp
    qed
  qed
  have ev': "events s' = map (\<lambda>e. if event_id e = v_eventId v
                            then e\<lparr>event_bookedSeats := event_bookedSeats e + pr_totalTickets pr\<rparr>
                            else e) (events s)"
    using committed(5) by (simp add: settle_writes_tables event_update_bookedSeats_def)
  have events_ok: "\<forall>e\<in>set (events s'). event_bookedSeats e \<le> event_availableSeats e"
  proof
    fix e' assume "e' \<in> set (events s')"
    with ev' obtain e where e: "e \<in> set (events s)"
      and e': "e' = (if event_id e = v_eventId v
                     then e\<lparr>event_bookedSeats := event_bookedSeats e + pr_totalTickets pr\<rparr>
                     else e)"
      by auto
    show "event_bookedSeats e' \<le> event_availableSeats e'"
    proof (cases "event_id e = v_eventId v")
      case True
      with assms(4) ev e have "e = event"
        unfolding event_findUnique_def by (rule find_unique_id)
      with True e' seats tt show ?thesis by simp
    next
      case False
      with e e' assms(6) show ?thesis by simp
    qed
  qed
  from tickets_ok events_ok show ?thesis by blast
qed simp_all

subsection \<open>Atomicity\<close>

text \<open>
  A call that fails before the commit leaves the store as it was; one that fails at the
  commit leaves every table but \<open>users\<close> and \<open>points\<close> as it was.
\<close>

lemma failed_booking_store:
  assumes "bookTickets env uid req s = (Inl e, s')"
  shows "if e = TransactionAborted
         then events s' = events s \<and> tickets s' = tickets s
              \<and> discountCoupons s' = discountCoupons s \<and> transactions s' = transactions s
              \<and> transactionItems s' = transactionItems s
              \<and> transactionCoupons s' = transactionCoupons s
         else s' = s"
  using assms
proof (cases rule: bookTickets_cases)
  case (thrown v e')
  then show ?thesis by (simp split: if_splits)
qed simp_all

text \<open>
  Claim C5: the code breaks it. The points credit is written through \<open>db\<close>, outside the
  transaction: when the transaction does not commit, the booking fails and no ticket is
  sold, yet the user keeps the new grant of 6 points and a balance raised from 5000 to
  5006.
\<close>

theorem aborted_booking_keeps_points_credit:
  "map user_pointsBalance (users ex_store) = [5000]
   \<and> points ex_store = [ex_grant]
   \<and> bookTickets ex_env_abort ''U'' ex_request_plain ex_store
       = (Inl TransactionAborted,
          ex_store\<lparr>users := [\<lparr>user_id = ''U'', user_pointsBalance = 5006\<rparr>],
                   points := [ex_grant, ex_grant_earned]\<rparr>)"
  by (simp add: booking_defs example_defs)

end
